theory Spec2Isabelle
  imports Complex_Main
begin

section \<open>Values, errors and the outside world\<close>

text \<open>
  The client of \<^verbatim>\<open>packages/snap/src/api/http.ts\<close> handles untyped records
  (\<^verbatim>\<open>Record<string, unknown>\<close>): request bodies, option bags and the envelope given
  to the transforms. A value is one of the cases below. An object is the list of its own
  enumerable properties, with distinct keys, in the order in which they were created
  (the order of insertion); \<open>own_keys\<close> below gives the order in which
  \<^verbatim>\<open>for ... in\<close> and the spread operator visit them. A \<^verbatim>\<open>Headers\<close> instance is the
  list of pairs that the constructor made of its argument. A number is \<^verbatim>\<open>NaN\<close>, an
  infinity or a finite value (the model does not tell \<^verbatim>\<open>-0\<close> from \<^verbatim>\<open>0\<close>, which
  print alike and are both falsy).
\<close>

datatype number = NaN | PosInfinity | NegInfinity | Finite real

datatype jsval =
    JUndefined
  | JNull
  | JBool bool
  | JNum number
  | JStr string
  | JObj "(string \<times> jsval) list"
  | JHeaders "(string \<times> string) list"

text \<open>
  What is thrown: \<^verbatim>\<open>new HttpDefaultFetchError(m)\<close>, \<^verbatim>\<open>new Error(m)\<close>, the
  \<^verbatim>\<open>TypeError\<close> of the \<^verbatim>\<open>URL\<close> constructor on a string it cannot parse, and
  whatever the transport primitive or a transform rejects with.
\<close>

datatype error =
    HttpDefaultFetchError string
  | Error string
  | TypeError
  | Rejected string

record response =
  ok :: bool
  status :: int
  statusText :: string
  body_text :: string

type_synonym transport_call = "string \<times> jsval"

text \<open>
  The transport primitive (\<^verbatim>\<open>fetch\<close>, or the surrogate given in the options) is a
  deterministic function of the calls made to it so far, the current one last: it
  resolves to a response or rejects. The world records every call of the primitive and
  every line written by \<^verbatim>\<open>console.warn\<close>. The client awaits every promise before
  it goes on, so an asynchronous method is a step from a world to a result and a world.
  Of a response the client reads \<^verbatim>\<open>ok\<close>, \<^verbatim>\<open>status\<close>, \<^verbatim>\<open>statusText\<close> and the
  text of a clone of the body (\<open>body_text\<close>).
\<close>

type_synonym fetch_fn = "transport_call list \<Rightarrow> error + response"

record world =
  calls :: "transport_call list"
  warnings :: "string list"

definition invoke_fetch :: "fetch_fn \<Rightarrow> string \<Rightarrow> jsval \<Rightarrow> world \<Rightarrow> (error + response) \<times> world" where
  "invoke_fetch f url init w =
     (let cs = calls w @ [(url, init)] in (f cs, w\<lparr>calls := cs\<rparr>))"

definition console_warn :: "string \<Rightarrow> world \<Rightarrow> world" where
  "console_warn m w = w\<lparr>warnings := warnings w @ [m]\<rparr>"

subsection \<open>JavaScript operators used by the client\<close>

text \<open>Truthiness, as \<^verbatim>\<open>||\<close> and \<^verbatim>\<open>? :\<close> test it.\<close>

fun truthy :: "jsval \<Rightarrow> bool" where
  "truthy JUndefined = False"
| "truthy JNull = False"
| "truthy (JBool b) = b"
| "truthy (JNum NaN) = False"
| "truthy (JNum PosInfinity) = True"
| "truthy (JNum NegInfinity) = True"
| "truthy (JNum (Finite r)) = (r \<noteq> 0)"
| "truthy (JStr s) = (s \<noteq> [])"
| "truthy (JObj ps) = True"
| "truthy (JHeaders hs) = True"

definition js_or :: "jsval \<Rightarrow> jsval \<Rightarrow> jsval" where
  "js_or a b = (if truthy a then a else b)"

fun string_of_nat :: "nat \<Rightarrow> string" where
  "string_of_nat n =
     (if n < 10 then [''0123456789'' ! n]
      else string_of_nat (n div 10) @ [''0123456789'' ! (n mod 10)])"

definition string_of_int :: "int \<Rightarrow> string" where
  "string_of_int i = (if i < 0 then CHR ''-'' # string_of_nat (nat (- i)) else string_of_nat (nat i))"

text \<open>Property read \<^verbatim>\<open>o[k]\<close> on an object's list of properties, and on a value.\<close>

fun lookup :: "(string \<times> jsval) list \<Rightarrow> string \<Rightarrow> jsval" where
  "lookup [] k = JUndefined"
| "lookup ((k', v) # ps) k = (if k' = k then v else lookup ps k)"

fun get_prop :: "jsval \<Rightarrow> string \<Rightarrow> jsval" where
  "get_prop (JObj ps) k = lookup ps k"
| "get_prop v k = JUndefined"

text \<open>
  The order of the keys of an object, for \<^verbatim>\<open>for ... in\<close> and for the spread operator:
  first the keys that are array indices (the decimal text, without a leading zero, of an
  integer from 0 to \<open>2\<^sup>3\<^sup>2 - 2\<close>), by ascending value, then the other keys in the order
  of their insertion. (The objects here are plain records: no inherited and no symbol
  keys.)
\<close>

definition is_digit :: "char \<Rightarrow> bool" where
  "is_digit c = ((48::nat) \<le> of_char c \<and> (of_char c :: nat) \<le> 57)"

definition index_value :: "string \<Rightarrow> nat" where
  "index_value k = foldl (\<lambda>n c. 10 * n + (of_char c - 48)) 0 k"

definition is_array_index :: "string \<Rightarrow> bool" where
  "is_array_index k =
     (k \<noteq> [] \<and> list_all is_digit k \<and> (k = ''0'' \<or> hd k \<noteq> CHR ''0'') \<and>
      index_value k \<le> 4294967294)"

definition own_keys :: "(string \<times> jsval) list \<Rightarrow> string list" where
  "own_keys ps =
     sort_key index_value (filter is_array_index (map fst ps)) @
     filter (\<lambda>k. \<not> is_array_index k) (map fst ps)"

text \<open>
  Property definition inside an object literal: a key already present keeps its place
  and takes the new value, a new key goes last. \<open>spread\<close> is \<^verbatim>\<open>{...o, ...src}\<close>,
  which copies the properties of \<^verbatim>\<open>src\<close> in the order of its keys; spreading
  \<^verbatim>\<open>undefined\<close> adds nothing.
\<close>

fun set_prop :: "string \<Rightarrow> jsval \<Rightarrow> (string \<times> jsval) list \<Rightarrow> (string \<times> jsval) list" where
  "set_prop k v [] = [(k, v)]"
| "set_prop k v ((k', v') # ps) = (if k' = k then (k, v) # ps else (k', v') # set_prop k v ps)"

definition spread :: "(string \<times> jsval) list \<Rightarrow> (string \<times> jsval) list \<Rightarrow> (string \<times> jsval) list" where
  "spread obj src = foldl (\<lambda>acc k. set_prop k (lookup src k) acc) obj (own_keys src)"

definition spread_opt :: "(string \<times> jsval) list \<Rightarrow> (string \<times> jsval) list option \<Rightarrow> (string \<times> jsval) list" where
  "spread_opt obj src = (case src of None \<Rightarrow> obj | Some ps \<Rightarrow> spread obj ps)"

definition endsWith :: "string \<Rightarrow> string \<Rightarrow> bool" where
  "endsWith s t = (length t \<le> length s \<and> drop (length s - length t) s = t)"

text \<open>\<^verbatim>\<open>s.match(/^[a-z]+:/)\<close>: one or more lower-case letters, then a colon.\<close>

definition is_lower :: "char \<Rightarrow> bool" where
  "is_lower c = ((97::nat) \<le> of_char c \<and> (of_char c :: nat) \<le> 122)"

definition match_scheme :: "string \<Rightarrow> bool" where
  "match_scheme s =
     (let p = takeWhile is_lower s in
      p \<noteq> [] \<and> (case drop (length p) s of [] \<Rightarrow> False | c # cs \<Rightarrow> c = CHR '':''))"

section \<open>The platform\<close>

text \<open>
  A parsed \<^verbatim>\<open>URL\<close> object. The client reads and writes its \<^verbatim>\<open>hostname\<close> only;
  the other components are carried along.
\<close>

record url =
  protocol :: string
  hostname :: string
  port :: string
  pathname :: string

text \<open>
  \<^verbatim>\<open>window\<close>, when the code runs in a page: the scheme and the text of
  \<^verbatim>\<open>window.location\<close>, and \<^verbatim>\<open>window.fetch\<close> when present.
\<close>

record window =
  location_protocol :: string
  location_href :: string
  window_fetch :: "fetch_fn option"

text \<open>
  What the hosting environment provides and the repository does not define:
  the global objects probed for a transport primitive (\<open>None\<close> when
  \<^verbatim>\<open>typeof\<close> gives \<^verbatim>\<open>'undefined'\<close>, \<open>Some None\<close> when the object has no
  \<^verbatim>\<open>fetch\<close>), the \<^verbatim>\<open>URL\<close> constructor with one argument (\<open>None\<close> when it
  throws), the text of \<^verbatim>\<open>new URL(path, base)\<close> (\<open>None\<close> when the constructor
  throws), the text that \<^verbatim>\<open>Buffer.from(s, 'base64')\<close> becomes when it is appended
  to a string, the \<^verbatim>\<open>Headers\<close> constructor on the pairs of a record (\<open>None\<close> when
  it throws its \<^verbatim>\<open>TypeError\<close>, as it does on a value that is not a legal header
  value), and the text of a finite number that is not an integer of magnitude up to
  \<open>2\<^sup>5\<^sup>3\<close>.
\<close>

record platform =
  the_window :: "window option"
  global_fetch :: "fetch_fn option option"
  self_fetch :: "fetch_fn option option"
  URL_new :: "string \<Rightarrow> url option"
  URL_href :: "string \<Rightarrow> url \<Rightarrow> string option"
  Buffer_from_base64 :: "string \<Rightarrow> string"
  Headers_new :: "(string \<times> string) list \<Rightarrow> (string \<times> string) list option"
  Number_toString :: "real \<Rightarrow> string"

text \<open>
  The text a template literal \<^verbatim>\<open>${v}\<close> puts for a value. An integer of magnitude up
  to \<open>2\<^sup>5\<^sup>3\<close> is printed with all its digits; the text of the other finite numbers
  (fractions, exponent forms) is the platform's.
\<close>

definition number_toString :: "platform \<Rightarrow> number \<Rightarrow> string" where
  "number_toString p x =
     (case x of
        NaN \<Rightarrow> ''NaN''
      | PosInfinity \<Rightarrow> ''Infinity''
      | NegInfinity \<Rightarrow> ''-Infinity''
      | Finite r \<Rightarrow>
          (if r = of_int \<lfloor>r\<rfloor> \<and> \<bar>r\<bar> \<le> 9007199254740992 then string_of_int \<lfloor>r\<rfloor>
           else Number_toString p r))"

fun toString :: "platform \<Rightarrow> jsval \<Rightarrow> string" where
  "toString p JUndefined = ''undefined''"
| "toString p JNull = ''null''"
| "toString p (JBool b) = (if b then ''true'' else ''false'')"
| "toString p (JNum x) = number_toString p x"
| "toString p (JStr s) = s"
| "toString p (JObj ps) = ''[object Object]''"
| "toString p (JHeaders hs) = ''[object Headers]''"

section \<open>The client\<close>

record credentials_option =
  name :: string
  password :: "string option"

record HttpAgentOptions =
  opt_fetch :: "fetch_fn option"
  opt_fetchOptions :: "(string \<times> jsval) list option"
  opt_callOptions :: "(string \<times> jsval) list option"
  opt_host :: "string option"
  opt_credentials :: "credentials_option option"
  opt_disableNonce :: "bool option"
  opt_retryTimes :: "int option"

text \<open>
  A transform is a function object: what it resolves to (or rejects with) on a request,
  and its mutable \<^verbatim>\<open>priority\<close> property. \<^verbatim>\<open>addTransform\<close> writes that property
  with \<^verbatim>\<open>Object.assign\<close>, and the pipeline holds references to the objects, so the
  objects live in a store indexed by reference. A transform that changes the request it
  is given in place, instead of resolving to a new one, is outside this model.
\<close>

record transform_fn =
  run :: "jsval \<Rightarrow> error + jsval"
  priority :: "int option"

type_synonym ref = nat
type_synonym store = "ref \<Rightarrow> transform_fn"

record HttpClient =
  pipeline :: "ref list"
  fetch :: fetch_fn
  fetchOptions :: "(string \<times> jsval) list option"
  callOptions :: "(string \<times> jsval) list option"
  timeDiffMsecs :: int
  host :: url
  credentials :: "string option"
  rootKeyFetched :: bool
  retryTimes :: int

definition API_DOMAIN :: string where
  "API_DOMAIN = ''astrox.app''"

definition API_SUB_DOMAIN :: string where
  "API_SUB_DOMAIN = ''.astrox.app''"

definition getDefaultFetch :: "platform \<Rightarrow> error + fetch_fn" where
  "getDefaultFetch p =
     (case the_window p of
        Some win \<Rightarrow>
          (case window_fetch win of
             Some f \<Rightarrow> Inr f
           | None \<Rightarrow> Inl (HttpDefaultFetchError
               ''Fetch implementation was not available. You appear to be in a browser context, but window.fetch was not present.''))
      | None \<Rightarrow>
          (case global_fetch p of
             Some g \<Rightarrow>
               (case g of
                  Some f \<Rightarrow> Inr f
                | None \<Rightarrow> Inl (HttpDefaultFetchError
                    ''Fetch implementation was not available. You appear to be in a Node.js context, but global.fetch was not available.''))
           | None \<Rightarrow>
               (case self_fetch p of
                  Some (Some f) \<Rightarrow> Inr f
                | _ \<Rightarrow> Inl (HttpDefaultFetchError
                    ''Fetch implementation was not available. Please provide fetch to the HttpAgent constructor, or ensure it is available in the window or global context.''))))"

text \<open>The host of the constructor (lines 116 to 128).\<close>

definition resolve_host :: "platform \<Rightarrow> string option \<Rightarrow> error + url" where
  "resolve_host p h =
     (case h of
        Some hs \<Rightarrow>
          (case (if \<not> match_scheme hs then the_window p else None) of
             Some win \<Rightarrow>
               (case URL_new p (location_protocol win @ ''//'' @ hs) of
                  None \<Rightarrow> Inl TypeError | Some u \<Rightarrow> Inr u)
           | None \<Rightarrow>
               (case URL_new p hs of None \<Rightarrow> Inl TypeError | Some u \<Rightarrow> Inr u))
      | None \<Rightarrow>
          (case the_window p of
             None \<Rightarrow> Inl (Error ''Must specify a host to connect to.'')
           | Some win \<Rightarrow>
               (case URL_new p (location_href win) of None \<Rightarrow> Inl TypeError | Some u \<Rightarrow> Inr u)))"

text \<open>
  The credential text of the constructor (line 140): the name, then a colon and the
  password when the password is given and not empty.
\<close>

definition credentials_string :: "credentials_option \<Rightarrow> string" where
  "credentials_string c =
     name c @ (case password c of
                 None \<Rightarrow> []
               | Some pw \<Rightarrow> (if pw \<noteq> [] then '':'' @ pw else []))"

definition new_HttpClient :: "platform \<Rightarrow> HttpAgentOptions \<Rightarrow> error + HttpClient" where
  "new_HttpClient p options =
     (case (case opt_fetch options of Some f \<Rightarrow> Inr f | None \<Rightarrow> getDefaultFetch p) of
        Inl e \<Rightarrow> Inl e
      | Inr f \<Rightarrow>
          (case resolve_host p (opt_host options) of
             Inl e \<Rightarrow> Inl e
           | Inr h \<Rightarrow>
               Inr \<lparr> pipeline = [],
                     fetch = f,
                     fetchOptions = opt_fetchOptions options,
                     callOptions = opt_callOptions options,
                     timeDiffMsecs = 0,
                     host = (if endsWith (hostname h) API_SUB_DOMAIN
                             then h\<lparr>hostname := API_DOMAIN\<rparr> else h),
                     credentials = map_option credentials_string (opt_credentials options),
                     rootKeyFetched = False,
                     retryTimes = (case opt_retryTimes options of None \<Rightarrow> 3 | Some n \<Rightarrow> n) \<rparr>))"

definition isLocal :: "HttpClient \<Rightarrow> bool" where
  "isLocal c = (let hn = hostname (host c) in hn = ''127.0.0.1'' \<or> endsWith hn ''localhost'')"

subsection \<open>addTransform\<close>

text \<open>\<^verbatim>\<open>x.priority || 0\<close>\<close>

definition priority_or0 :: "transform_fn \<Rightarrow> int" where
  "priority_or0 x = (case priority x of None \<Rightarrow> 0 | Some v \<Rightarrow> v)"

text \<open>\<^verbatim>\<open>Array.prototype.findIndex\<close>: the first index whose element passes, or -1.\<close>

fun findIndex :: "('a \<Rightarrow> bool) \<Rightarrow> 'a list \<Rightarrow> int" where
  "findIndex P [] = - 1"
| "findIndex P (x # xs) =
     (if P x then 0 else (let i = findIndex P xs in if i \<ge> 0 then i + 1 else - 1))"

text \<open>\<^verbatim>\<open>xs.splice(start, 0, item)\<close> for \<open>0 \<le> start \<le> length xs\<close>.\<close>

definition splice_insert :: "'a list \<Rightarrow> nat \<Rightarrow> 'a \<Rightarrow> 'a list" where
  "splice_insert xs start item = take start xs @ item # drop start xs"

text \<open>
  \<^verbatim>\<open>addTransform(fn, priority = fn.priority || 0)\<close>: the second argument is \<open>None\<close>
  when the caller leaves it out. The index is computed on the store as it is before
  \<^verbatim>\<open>Object.assign(fn, { priority })\<close> writes the priority into the function object.
\<close>

definition addTransform :: "ref \<Rightarrow> int option \<Rightarrow> store \<times> HttpClient \<Rightarrow> store \<times> HttpClient" where
  "addTransform fn priority_arg sc =
     (case sc of (st, c) \<Rightarrow>
        (let prio = (case priority_arg of Some v \<Rightarrow> v | None \<Rightarrow> priority_or0 (st fn));
             i = findIndex (\<lambda>x. priority_or0 (st x) < prio) (pipeline c);
             st' = st(fn := (st fn)\<lparr>priority := Some prio\<rparr>)
         in (st', c\<lparr>pipeline :=
                      splice_insert (pipeline c) (if i \<ge> 0 then nat i else length (pipeline c)) fn\<rparr>)))"

subsection \<open>The retry loop\<close>

definition exceeded_message :: "int \<Rightarrow> string" where
  "exceeded_message n =
     ''AgentError: Exceeded configured limit of '' @ string_of_int n @
     '' retry attempts. Please check your network connection or try again in a few moments''"

definition errorMessage :: "response \<Rightarrow> string" where
  "errorMessage r =
     ''Server returned an error:'' @ [CHR 0x0A] @
     ''  Code: '' @ string_of_int (status r) @ '' ('' @ statusText r @ '')'' @ [CHR 0x0A] @
     ''  Body: '' @ body_text r @ [CHR 0x0A]"

function requestAndRetry ::
  "HttpClient \<Rightarrow> (world \<Rightarrow> (error + response) \<times> world) \<Rightarrow> int \<Rightarrow> world \<Rightarrow> (error + response) \<times> world"
where
  "requestAndRetry c request tries w =
     (if tries > retryTimes c \<and> retryTimes c \<noteq> 0
      then (Inl (Error (exceeded_message (retryTimes c))), w)
      else (case request w of
              (Inl e, w1) \<Rightarrow> (Inl e, w1)
            | (Inr response, w1) \<Rightarrow>
                (if \<not> ok response then
                   (if retryTimes c > tries
                    then requestAndRetry c request (tries + 1)
                           (console_warn (errorMessage response @ ''  Retrying request.'') w1)
                    else (Inl (Error (errorMessage response)), w1))
                 else (Inr response, w1))))"
  by pat_completeness auto
termination
  by (relation "measure (\<lambda>(c, request, tries, w). nat (retryTimes c - tries))") auto

declare requestAndRetry.simps [simp del]

subsection \<open>The transform pipeline\<close>

text \<open>
  A promise, once settled, is its value or the error it rejected with; \<open>promise_then\<close> is
  \<^verbatim>\<open>p.then(f)\<close> for a callback that gives a promise.
\<close>

definition promise_then :: "error + 'a \<Rightarrow> ('a \<Rightarrow> error + 'b) \<Rightarrow> error + 'b" where
  "promise_then p f = (case p of Inl e \<Rightarrow> Inl e | Inr v \<Rightarrow> f v)"

definition transform :: "store \<Rightarrow> HttpClient \<Rightarrow> jsval \<Rightarrow> error + jsval" where
  "transform st c request =
     foldl (\<lambda>p fn. promise_then p (\<lambda>r. promise_then (run (st fn) r) (\<lambda>r2. Inr (js_or r2 r))))
       (Inr request) (pipeline c)"

subsection \<open>httpGet and httpPost\<close>

text \<open>The \<^verbatim>\<open>headers\<close> object of \<^verbatim>\<open>httpGet\<close> (lines 156 to 160).\<close>

definition httpGet_headers :: "platform \<Rightarrow> HttpClient \<Rightarrow> (string \<times> jsval) list" where
  "httpGet_headers p c =
     (case credentials c of
        Some cr \<Rightarrow>
          (if cr \<noteq> [] then [(''Authorization'', JStr (''Basic '' @ Buffer_from_base64 p cr))] else [])
      | None \<Rightarrow> [])"

text \<open>
  The loop of lines 162 to 172, \<^verbatim>\<open>for (const id in body)\<close>, with its counter
  \<^verbatim>\<open>c\<close>.
\<close>

definition httpGet_url :: "platform \<Rightarrow> string \<Rightarrow> (string \<times> jsval) list \<Rightarrow> string" where
  "httpGet_url p endpoint body =
     fst (foldl (\<lambda>(url, n) id.
                   ((url @ (if n = (0::nat) then ''?'' else ''&'')) @ id @ ''='' @ toString p (lookup body id),
                    n + 1))
            (endpoint, 0) (own_keys body))"

text \<open>The second argument of the transport call: \<^verbatim>\<open>{ headers, ...this._fetchOptions }\<close>.\<close>

definition httpGet_init :: "platform \<Rightarrow> HttpClient \<Rightarrow> jsval" where
  "httpGet_init p c = JObj (spread_opt [(''headers'', JObj (httpGet_headers p c))] (fetchOptions c))"

text \<open>
  The closure given to the retry loop. It builds the address with \<^verbatim>\<open>new URL\<close> and
  calls the transport primitive, each time it is run.
\<close>

definition httpGet_request :: "platform \<Rightarrow> HttpClient \<Rightarrow> string \<Rightarrow> world \<Rightarrow> (error + response) \<times> world" where
  "httpGet_request p c url w =
     (case URL_href p url (host c) of
        None \<Rightarrow> (Inl TypeError, w)
      | Some href \<Rightarrow> invoke_fetch (fetch c) href (httpGet_init p c) w)"

definition httpGet ::
  "platform \<Rightarrow> HttpClient \<Rightarrow> string \<Rightarrow> (string \<times> jsval) list \<Rightarrow> world \<Rightarrow> (error + response) \<times> world"
where
  "httpGet p c endpoint body w =
     requestAndRetry c (httpGet_request p c (httpGet_url p endpoint body)) 0 w"

text \<open>
  \<^verbatim>\<open>httpPost\<close> (lines 178 to 188) first builds \<^verbatim>\<open>payload\<close>. The record given to
  \<^verbatim>\<open>new Headers\<close> is \<open>httpPost_headers_init\<close>; the constructor may throw. With the
  headers \<open>hs\<close> it made, \<^verbatim>\<open>payload.request\<close> and \<^verbatim>\<open>payload\<close> are as follows.
\<close>

definition httpPost_headers_init :: "platform \<Rightarrow> HttpClient \<Rightarrow> (string \<times> string) list" where
  "httpPost_headers_init p c =
     (''Content-Type'', ''application/json'') #
     (case credentials c of
        Some cr \<Rightarrow>
          (if cr \<noteq> [] then [(''Authorization'', ''Basic '' @ Buffer_from_base64 p cr)] else [])
      | None \<Rightarrow> [])"

definition payload_request :: "(string \<times> string) list \<Rightarrow> (string \<times> jsval) list" where
  "payload_request hs = [(''method'', JStr ''POST''), (''headers'', JHeaders hs)]"

definition httpPost_payload :: "(string \<times> string) list \<Rightarrow> string \<Rightarrow> (string \<times> jsval) list \<Rightarrow> jsval" where
  "httpPost_payload hs endpoint body =
     JObj [(''request'', JObj (payload_request hs)),
           (''endpoint'', JStr endpoint),
           (''body'', JObj body)]"

text \<open>
  The second argument of the transport call:
  \<^verbatim>\<open>{ ...this._callOptions, ...payload.request, body: transformed.body }\<close>.
\<close>

definition httpPost_init :: "HttpClient \<Rightarrow> (string \<times> string) list \<Rightarrow> jsval \<Rightarrow> jsval" where
  "httpPost_init c hs transformed =
     JObj (set_prop ''body'' (get_prop transformed ''body'')
             (spread (spread_opt [] (callOptions c)) (payload_request hs)))"

definition httpPost_request ::
  "platform \<Rightarrow> HttpClient \<Rightarrow> string \<Rightarrow> (string \<times> string) list \<Rightarrow> jsval \<Rightarrow> world \<Rightarrow>
   (error + response) \<times> world"
where
  "httpPost_request p c endpoint hs transformed w =
     (case URL_href p endpoint (host c) of
        None \<Rightarrow> (Inl TypeError, w)
      | Some href \<Rightarrow> invoke_fetch (fetch c) href (httpPost_init c hs transformed) w)"

definition httpPost ::
  "platform \<Rightarrow> store \<Rightarrow> HttpClient \<Rightarrow> string \<Rightarrow> (string \<times> jsval) list \<Rightarrow> world \<Rightarrow> (error + response) \<times> world"
where
  "httpPost p st c endpoint body w =
     (case Headers_new p (httpPost_headers_init p c) of
        None \<Rightarrow> (Inl TypeError, w)
      | Some hs \<Rightarrow>
          (case transform st c (httpPost_payload hs endpoint body) of
             Inl e \<Rightarrow> (Inl e, w)
           | Inr transformed \<Rightarrow>
               requestAndRetry c (httpPost_request p c endpoint hs transformed) 0 w))"

section \<open>Notions used in the statements\<close>

text \<open>
  What the transport primitive gives at the \<open>j\<close>-th repetition (from 0) of one call,
  starting in world \<open>w\<close>; an outcome is refused when the call completes with a response
  that is not \<^verbatim>\<open>ok\<close>.
\<close>

definition outcome_at :: "fetch_fn \<Rightarrow> world \<Rightarrow> transport_call \<Rightarrow> nat \<Rightarrow> error + response" where
  "outcome_at f w call j = f (calls w @ replicate (Suc j) call)"

definition refused :: "error + response \<Rightarrow> bool" where
  "refused out = (case out of Inl e \<Rightarrow> False | Inr r \<Rightarrow> \<not> ok r)"

text \<open>A sequence of \<^verbatim>\<open>addTransform\<close> calls, each a function object and its optional priority.\<close>

definition addTransforms :: "(ref \<times> int option) list \<Rightarrow> store \<times> HttpClient \<Rightarrow> store \<times> HttpClient" where
  "addTransforms adds sc = foldl (\<lambda>acc (fn, pr). addTransform fn pr acc) sc adds"

text \<open>
  The properties of an object in the order of its keys, and the query string as the
  specification describes it, for a list of parameters.
\<close>

definition for_in_pairs :: "(string \<times> jsval) list \<Rightarrow> (string \<times> jsval) list" where
  "for_in_pairs body = map (\<lambda>k. (k, lookup body k)) (own_keys body)"

fun join :: "string \<Rightarrow> string list \<Rightarrow> string" where
  "join sep [] = []"
| "join sep [x] = x"
| "join sep (x # y # ys) = x @ sep @ join sep (y # ys)"

definition query_string :: "platform \<Rightarrow> (string \<times> jsval) list \<Rightarrow> string" where
  "query_string p body =
     (if body = [] then [] else ''?'' @ join ''&'' (map (\<lambda>(k, v). k @ ''='' @ toString p v) body))"

text \<open>The base64 encoding of RFC 4648, which the specification names for the credentials.\<close>

definition base64_digit :: "nat \<Rightarrow> char" where
  "base64_digit i = ''ABCDEFGHIJKLMNOPQRSTUVWXYZabcdefghijklmnopqrstuvwxyz0123456789+/'' ! i"

fun base64_encode :: "string \<Rightarrow> string" where
  "base64_encode [] = []"
| "base64_encode [a] =
     (let x = (of_char a :: nat) in
      [base64_digit (x div 4), base64_digit ((x mod 4) * 16), CHR ''='', CHR ''=''])"
| "base64_encode [a, b] =
     (let x = (of_char a :: nat); y = (of_char b :: nat) in
      [base64_digit (x div 4), base64_digit ((x mod 4) * 16 + y div 16),
       base64_digit ((y mod 16) * 4), CHR ''=''])"
| "base64_encode (a # b # c # rest) =
     (let x = (of_char a :: nat); y = (of_char b :: nat); z = (of_char c :: nat) in
      [base64_digit (x div 4), base64_digit ((x mod 4) * 16 + y div 16),
       base64_digit ((y mod 16) * 4 + z div 64), base64_digit (z mod 64)] @ base64_encode rest)"

subsection \<open>An environment for the examples\<close>

text \<open>
  A platform for the examples. It has none of the global objects, so a client takes its
  transport primitive from the options. Its \<^verbatim>\<open>URL\<close> constructor is given on the one
  address the examples use, and \<^verbatim>\<open>new URL(path, base)\<close> for a path that starts with a
  slash. The \<^verbatim>\<open>Buffer\<close> conversion is given on the credential texts of the examples,
  with the texts of Node.js, which decodes (\<^verbatim>\<open>'' + Buffer.from('QUJD', 'base64')\<close> is
  \<^verbatim>\<open>'ABC'\<close>); the text for \<^verbatim>\<open>user:pass\<close> is held as its UTF-8 bytes, and reads
  U+FFFD, U+01EB, U+FFFD, U+FFFD, comma. The \<^verbatim>\<open>Headers\<close> constructor of the
  examples throws when a value holds a NUL, a line feed, a carriage return or a character
  above U+00FF, and otherwise keeps the pairs.
\<close>

definition example_url :: url where
  "example_url = \<lparr>protocol = ''https:'', hostname = ''x.astrox.app'', port = [], pathname = ''/''\<rparr>"

definition example_header_value :: "string \<Rightarrow> bool" where
  "example_header_value v =
     list_all (\<lambda>c. (of_char c :: nat) \<noteq> 0 \<and> (of_char c :: nat) \<noteq> 10 \<and>
                   (of_char c :: nat) \<noteq> 13 \<and> (of_char c :: nat) < 196) v"

definition example_platform :: platform where
  "example_platform =
     \<lparr>the_window = None, global_fetch = None, self_fetch = None,
      URL_new = (\<lambda>s. if s = ''https://x.astrox.app'' then Some example_url else None),
      URL_href = (\<lambda>path base. Some (protocol base @ ''//'' @ hostname base @ path)),
      Buffer_from_base64 =
        (\<lambda>s. if s = ''QUJD'' then ''ABC''
             else if s = ''QUJD:RUZH'' then ''ABCEFG''
             else if s = ''user:pass''
               then [CHR 0xEF, CHR 0xBF, CHR 0xBD, CHR 0xC7, CHR 0xAB, CHR 0xEF, CHR 0xBF, CHR 0xBD,
                     CHR 0xEF, CHR 0xBF, CHR 0xBD, CHR 0x2C]
             else []),
      Headers_new = (\<lambda>init. if list_all (\<lambda>(k, v). example_header_value v) init then Some init else None),
      Number_toString = (\<lambda>r. if r = 1 / 2 then ''0.5'' else [])\<rparr>"

text \<open>A transport primitive that answers its calls from a list, in order.\<close>

definition scripted :: "(error + response) list \<Rightarrow> fetch_fn" where
  "scripted outs cs =
     (if cs \<noteq> [] \<and> length cs \<le> length outs then outs ! (length cs - 1)
      else Inl (Rejected ''no answer left''))"

definition response_200 :: response where
  "response_200 = \<lparr>ok = True, status = 200, statusText = ''OK'', body_text = ''done''\<rparr>"

definition response_503 :: response where
  "response_503 = \<lparr>ok = False, status = 503, statusText = ''Service Unavailable'', body_text = ''busy''\<rparr>"

definition example_options :: "fetch_fn \<Rightarrow> HttpAgentOptions" where
  "example_options f =
     \<lparr>opt_fetch = Some f, opt_fetchOptions = None, opt_callOptions = None,
      opt_host = Some ''https://x.astrox.app'', opt_credentials = None,
      opt_disableNonce = None, opt_retryTimes = None\<rparr>"

definition example_client :: "fetch_fn \<Rightarrow> int \<Rightarrow> HttpClient" where
  "example_client f n =
     \<lparr>pipeline = [], fetch = f, fetchOptions = None, callOptions = None, timeDiffMsecs = 0,
      host = example_url\<lparr>hostname := ''astrox.app''\<rparr>, credentials = None,
      rootKeyFetched = False, retryTimes = n\<rparr>"

definition world0 :: world where
  "world0 = \<lparr>calls = [], warnings = []\<rparr>"

text \<open>A store of function objects without a priority that leave the request as it is.\<close>

definition store0 :: store where
  "store0 = (\<lambda>r. \<lparr>run = (\<lambda>x. Inr JUndefined), priority = None\<rparr>)"

text \<open>
  A store for the examples: function 2 wraps the request it is given, function 3 resolves
  to a new request with another method, other headers and another body, and every other
  function resolves to \<^verbatim>\<open>undefined\<close>.
\<close>

definition example_store :: store where
  "example_store r =
     (if r = 2 then \<lparr>run = (\<lambda>x. Inr (JObj [(''seen'', x)])), priority = None\<rparr>
      else if r = 3 then
        \<lparr>run = (\<lambda>x. Inr (JObj [(''request'', JObj [(''method'', JStr ''PUT''), (''headers'', JHeaders [])]),
                                (''endpoint'', get_prop x ''endpoint''),
                                (''body'', JObj [(''nonce'', JNum (Finite 7))])])),
         priority = None\<rparr>
      else \<lparr>run = (\<lambda>x. Inr JUndefined), priority = None\<rparr>)"

section \<open>Facts about the examples\<close>

lemma scripted_outcome:
  "j < length outs \<Longrightarrow> outcome_at (scripted outs) world0 call j = outs ! j"
  by (simp add: outcome_at_def scripted_def world0_def)

lemma example_client_simps [simp]:
  "retryTimes (example_client f n) = n"
  "fetch (example_client f n) = f"
  "host (example_client f n) = example_url\<lparr>hostname := ''astrox.app''\<rparr>"
  "pipeline (example_client f n) = []"
  "credentials (example_client f n) = None"
  "fetchOptions (example_client f n) = None"
  "callOptions (example_client f n) = None"
  by (simp_all add: example_client_def)

lemma example_href [simp]:
  "URL_href example_platform path (example_url\<lparr>hostname := ''astrox.app''\<rparr>) = Some (''https://astrox.app'' @ path)"
  by (simp add: example_platform_def example_url_def)

lemma refused_simps [simp]:
  "refused (Inr response_503)" "\<not> refused (Inr response_200)" "\<not> refused (Inl e)"
  "ok response_200" "\<not> ok response_503"
  by (simp_all add: refused_def response_503_def response_200_def)

lemma transform_empty: "pipeline c = [] \<Longrightarrow> transform st c r = Inr r"
  by (simp add: transform_def)

lemma own_keys_Nil [simp]: "own_keys [] = []"
  by (simp add: own_keys_def)

lemma httpGet_url_Nil [simp]: "httpGet_url p endpoint [] = endpoint"
  by (simp add: httpGet_url_def)

lemma example_headers_plain [simp]:
  "Headers_new example_platform [(''Content-Type'', ''application/json'')]
     = Some [(''Content-Type'', ''application/json'')]"
  by (simp add: example_platform_def example_header_value_def)

lemma example_headers_init_plain [simp]:
  "httpPost_headers_init p (example_client f n) = [(''Content-Type'', ''application/json'')]"
  by (simp add: httpPost_headers_init_def)

section \<open>The retry loop\<close>

subsection \<open>One attempt, and runs of attempts\<close>

lemma calls_console_warn [simp]: "calls (console_warn m w) = calls w"
  by (simp add: console_warn_def)

lemma outcome_at_shift:
  "outcome_at f (console_warn m (w\<lparr>calls := calls w @ [call]\<rparr>)) call j = outcome_at f w call (Suc j)"
  by (simp add: outcome_at_def replicate_append_same)

lemma retry_step:
  assumes "\<not> (tries > retryTimes c \<and> retryTimes c \<noteq> 0)"
  shows "requestAndRetry c (invoke_fetch f url init) tries w =
     (case outcome_at f w (url, init) 0 of
        Inl e \<Rightarrow> (Inl e, w\<lparr>calls := calls w @ [(url, init)]\<rparr>)
      | Inr r \<Rightarrow>
          if ok r then (Inr r, w\<lparr>calls := calls w @ [(url, init)]\<rparr>)
          else if retryTimes c > tries
               then requestAndRetry c (invoke_fetch f url init) (tries + 1)
                      (console_warn (errorMessage r @ ''  Retrying request.'') (w\<lparr>calls := calls w @ [(url, init)]\<rparr>))
               else (Inl (Error (errorMessage r)), w\<lparr>calls := calls w @ [(url, init)]\<rparr>))"
  using assms
  by (subst requestAndRetry.simps) (auto simp: invoke_fetch_def outcome_at_def Let_def split: sum.splits)

lemma run_until:
  assumes "int k + tries \<le> retryTimes c"
    and "\<forall>j<k. refused (outcome_at f w (url, init) j)"
    and "\<not> refused (outcome_at f w (url, init) k)"
  shows "fst (requestAndRetry c (invoke_fetch f url init) tries w) = outcome_at f w (url, init) k \<and>
         calls (snd (requestAndRetry c (invoke_fetch f url init) tries w)) = calls w @ replicate (Suc k) (url, init)"
  using assms
proof (induction k arbitrary: tries w)
  case 0
  then have g: "\<not> (tries > retryTimes c \<and> retryTimes c \<noteq> 0)" by simp
  show ?case
  proof (cases "outcome_at f w (url, init) 0")
    case (Inl e)
    then show ?thesis by (simp add: retry_step [OF g])
  next
    case (Inr r)
    with 0 have "ok r" by (simp add: refused_def)
    with Inr show ?thesis by (simp add: retry_step [OF g])
  qed
next
  case (Suc k)
  then have g: "\<not> (tries > retryTimes c \<and> retryTimes c \<noteq> 0)" by simp
  from Suc.prems have lt: "retryTimes c > tries" by simp
  from Suc.prems have "refused (outcome_at f w (url, init) 0)" by simp
  then obtain r where r: "outcome_at f w (url, init) 0 = Inr r" "\<not> ok r"
    by (auto simp: refused_def split: sum.splits)
  let ?w = "console_warn (errorMessage r @ ''  Retrying request.'') (w\<lparr>calls := calls w @ [(url, init)]\<rparr>)"
  have step: "requestAndRetry c (invoke_fetch f url init) tries w =
              requestAndRetry c (invoke_fetch f url init) (tries + 1) ?w"
    using r lt by (simp add: retry_step [OF g])
  have a: "int k + (tries + 1) \<le> retryTimes c" using Suc.prems by simp
  have b: "\<forall>j<k. refused (outcome_at f ?w (url, init) j)"
    using Suc.prems by (simp add: outcome_at_shift)
  have c: "\<not> refused (outcome_at f ?w (url, init) k)"
    using Suc.prems by (simp add: outcome_at_shift)
  from Suc.IH [OF a b c] show ?case
    by (simp add: step outcome_at_shift replicate_append_same)
qed

lemma run_exhausted:
  assumes "tries \<le> retryTimes c"
    and "m = nat (retryTimes c - tries)"
    and "\<forall>j\<le>m. refused (outcome_at f w (url, init) j)"
  shows "(\<exists>r. outcome_at f w (url, init) m = Inr r \<and>
              fst (requestAndRetry c (invoke_fetch f url init) tries w) = Inl (Error (errorMessage r))) \<and>
         calls (snd (requestAndRetry c (invoke_fetch f url init) tries w)) = calls w @ replicate (Suc m) (url, init)"
  using assms
proof (induction m arbitrary: tries w)
  case 0
  then have g: "\<not> (tries > retryTimes c \<and> retryTimes c \<noteq> 0)" by simp
  from 0 have eq: "\<not> retryTimes c > tries" by simp
  from 0 obtain r where r: "outcome_at f w (url, init) 0 = Inr r" "\<not> ok r"
    by (auto simp: refused_def split: sum.splits)
  show ?case using r eq by (simp add: retry_step [OF g])
next
  case (Suc m)
  then have g: "\<not> (tries > retryTimes c \<and> retryTimes c \<noteq> 0)" by simp
  from Suc.prems have lt: "retryTimes c > tries" by simp
  from Suc.prems have "refused (outcome_at f w (url, init) 0)" by simp
  then obtain r where r: "outcome_at f w (url, init) 0 = Inr r" "\<not> ok r"
    by (auto simp: refused_def split: sum.splits)
  let ?w = "console_warn (errorMessage r @ ''  Retrying request.'') (w\<lparr>calls := calls w @ [(url, init)]\<rparr>)"
  have step: "requestAndRetry c (invoke_fetch f url init) tries w =
              requestAndRetry c (invoke_fetch f url init) (tries + 1) ?w"
    using r lt by (simp add: retry_step [OF g])
  have a: "tries + 1 \<le> retryTimes c" using lt by simp
  have b: "m = nat (retryTimes c - (tries + 1))" using Suc.prems by simp
  have c: "\<forall>j\<le>m. refused (outcome_at f ?w (url, init) j)"
    using Suc.prems by (simp add: outcome_at_shift)
  from Suc.IH [OF a b c] show ?case
    by (simp add: step outcome_at_shift replicate_append_same)
qed

lemma run_bound:
  "tries \<le> retryTimes c \<Longrightarrow>
   length (calls (snd (requestAndRetry c (invoke_fetch f url init) tries w)))
     \<le> length (calls w) + nat (retryTimes c - tries) + 1"
proof (induction c "invoke_fetch f url init" tries w rule: requestAndRetry.induct)
  case (1 c tries w)
  then have g: "\<not> (tries > retryTimes c \<and> retryTimes c \<noteq> 0)" by simp
  show ?case
  proof (cases "outcome_at f w (url, init) 0")
    case (Inl e)
    then show ?thesis by (simp add: retry_step [OF g])
  next
    case (Inr r)
    show ?thesis
    proof (cases "\<not> ok r \<and> retryTimes c > tries")
      case False
      then show ?thesis using Inr by (auto simp add: retry_step [OF g])
    next
      case True
      have req: "invoke_fetch f url init w = (Inr r, w\<lparr>calls := calls w @ [(url, init)]\<rparr>)"
        using Inr by (simp add: invoke_fetch_def outcome_at_def Let_def)
      have "length (calls (snd (requestAndRetry c (invoke_fetch f url init) (tries + 1)
               (console_warn (errorMessage r @ ''  Retrying request.'') (w\<lparr>calls := calls w @ [(url, init)]\<rparr>)))))
            \<le> length (calls (console_warn (errorMessage r @ ''  Retrying request.'') (w\<lparr>calls := calls w @ [(url, init)]\<rparr>)))
                + nat (retryTimes c - (tries + 1)) + 1"
        using "1.hyps" [OF g req [symmetric] refl] True by simp
      moreover have "nat (retryTimes c - (tries + 1)) + 1 = nat (retryTimes c - tries)"
        using True by linarith
      ultimately show ?thesis using True Inr by (simp add: retry_step [OF g])
    qed
  qed
qed


lemma httpGet_request_resolved:
  "URL_href p url (host c) = Some href \<Longrightarrow>
   httpGet_request p c url = invoke_fetch (fetch c) href (httpGet_init p c)"
  by (rule ext) (simp add: httpGet_request_def)

lemma httpPost_request_resolved:
  "URL_href p endpoint (host c) = Some href \<Longrightarrow>
   httpPost_request p c endpoint hs t = invoke_fetch (fetch c) href (httpPost_init c hs t)"
  by (rule ext) (simp add: httpPost_request_def)

lemma httpGet_run:
  "URL_href p (httpGet_url p endpoint body) (host c) = Some href \<Longrightarrow>
   httpGet p c endpoint body w = requestAndRetry c (invoke_fetch (fetch c) href (httpGet_init p c)) 0 w"
  by (simp add: httpGet_def httpGet_request_resolved)

lemma httpPost_run:
  "Headers_new p (httpPost_headers_init p c) = Some hs \<Longrightarrow>
   URL_href p endpoint (host c) = Some href \<Longrightarrow>
   transform st c (httpPost_payload hs endpoint body) = Inr t \<Longrightarrow>
   httpPost p st c endpoint body w = requestAndRetry c (invoke_fetch (fetch c) href (httpPost_init c hs t)) 0 w"
  by (simp add: httpPost_def httpPost_request_resolved)

lemma httpPost_headers_rejected:
  "Headers_new p (httpPost_headers_init p c) = None \<Longrightarrow>
   httpPost p st c endpoint body w = (Inl TypeError, w)"
  by (simp add: httpPost_def)

subsection \<open>The budget bounds the transport calls\<close>

text \<open>
  C1. With a retry budget \<open>n > 0\<close>, one logical request makes at most \<open>n + 1\<close> calls of
  the transport primitive. If the first \<open>k \<le> n\<close> calls complete with a response that is
  not ok and the next one with an ok response, exactly \<open>k + 1\<close> calls are made and that
  response is returned; if the first \<open>n + 1\<close> calls all complete with a response that is
  not ok, exactly \<open>n + 1\<close> calls are made and the error built from the last response is
  raised. \<^verbatim>\<open>httpGet\<close> is such a run of the loop, on the call it builds, and so is
  \<^verbatim>\<open>httpPost\<close> once the \<^verbatim>\<open>Headers\<close> constructor has made its headers and the
  pipeline has resolved. (The budget is a \<^verbatim>\<open>number\<close>; with a negative one the loop
  raises before any call.)
\<close>

theorem retry_budget_transport_calls:
  assumes "0 < retryTimes c"
  shows "length (calls (snd (requestAndRetry c (invoke_fetch f url init) 0 w)))
           \<le> length (calls w) + nat (retryTimes c) + 1
       \<and> (int k \<le> retryTimes c \<and> (\<forall>j<k. refused (outcome_at f w (url, init) j)) \<and>
            outcome_at f w (url, init) k = Inr r \<and> ok r \<longrightarrow>
            fst (requestAndRetry c (invoke_fetch f url init) 0 w) = Inr r \<and>
            calls (snd (requestAndRetry c (invoke_fetch f url init) 0 w)) = calls w @ replicate (k + 1) (url, init))
       \<and> ((\<forall>j\<le>nat (retryTimes c). refused (outcome_at f w (url, init) j)) \<longrightarrow>
            (\<exists>r'. outcome_at f w (url, init) (nat (retryTimes c)) = Inr r' \<and>
                  fst (requestAndRetry c (invoke_fetch f url init) 0 w) = Inl (Error (errorMessage r'))) \<and>
            calls (snd (requestAndRetry c (invoke_fetch f url init) 0 w))
              = calls w @ replicate (nat (retryTimes c) + 1) (url, init))
       \<and> (URL_href p (httpGet_url p endpoint body) (host c) = Some href \<longrightarrow>
            httpGet p c endpoint body w
              = requestAndRetry c (invoke_fetch (fetch c) href (httpGet_init p c)) 0 w)
       \<and> (Headers_new p (httpPost_headers_init p c) = Some hs \<and>
            URL_href p endpoint (host c) = Some href \<and>
            transform st c (httpPost_payload hs endpoint body) = Inr t \<longrightarrow>
            httpPost p st c endpoint body w
              = requestAndRetry c (invoke_fetch (fetch c) href (httpPost_init c hs t)) 0 w)"
proof -
  have le: "(0::int) \<le> retryTimes c" using assms by simp
  have bound: "length (calls (snd (requestAndRetry c (invoke_fetch f url init) 0 w)))
                 \<le> length (calls w) + nat (retryTimes c) + 1"
    using run_bound [OF le, of f url init w] by simp
  have until: "int k \<le> retryTimes c \<and> (\<forall>j<k. refused (outcome_at f w (url, init) j)) \<and>
            outcome_at f w (url, init) k = Inr r \<and> ok r \<longrightarrow>
            fst (requestAndRetry c (invoke_fetch f url init) 0 w) = Inr r \<and>
            calls (snd (requestAndRetry c (invoke_fetch f url init) 0 w)) = calls w @ replicate (k + 1) (url, init)"
    using run_until [of k 0 c f w url init] by (simp add: refused_def)
  have exhausted: "(\<forall>j\<le>nat (retryTimes c). refused (outcome_at f w (url, init) j)) \<longrightarrow>
            (\<exists>r'. outcome_at f w (url, init) (nat (retryTimes c)) = Inr r' \<and>
                  fst (requestAndRetry c (invoke_fetch f url init) 0 w) = Inl (Error (errorMessage r'))) \<and>
            calls (snd (requestAndRetry c (invoke_fetch f url init) 0 w))
              = calls w @ replicate (nat (retryTimes c) + 1) (url, init)"
    using run_exhausted [OF le, of "nat (retryTimes c)" f w url init] by simp
  show ?thesis
    using bound until exhausted httpGet_run [of p endpoint body c href w]
      httpPost_run [of p c hs endpoint href st body t w]
    by blast
qed

theorem retry_budget_transport_calls_witness:
  "(let res = httpGet example_platform
          (example_client (scripted [Inr response_503, Inr response_503, Inr response_200]) 2)
          ''/status'' [] world0
    in fst res = Inr response_200 \<and> length (calls (snd res)) = 3)
   \<and> (let res = httpGet example_platform
          (example_client (scripted [Inr response_503, Inr response_503, Inr response_503, Inr response_200]) 2)
          ''/status'' [] world0
    in fst res = Inl (Error (errorMessage response_503)) \<and> length (calls (snd res)) = 3)
   \<and> (let res = httpPost example_platform store0
          (example_client (scripted [Inr response_503, Inr response_503, Inr response_503, Inr response_503, Inr response_200]) 3)
          ''/call'' [] world0
    in fst res = Inl (Error (errorMessage response_503)) \<and> length (calls (snd res)) = 4)"
proof -
  let ?url = "''https://astrox.app/status''"
  have u: "httpGet_url example_platform ''/status'' [] = ''/status''" by simp
  have a: "let res = httpGet example_platform
          (example_client (scripted [Inr response_503, Inr response_503, Inr response_200]) 2)
          ''/status'' [] world0
    in fst res = Inr response_200 \<and> length (calls (snd res)) = 3"
  proof -
    let ?f = "scripted [Inr response_503, Inr response_503, Inr response_200]"
    let ?c = "example_client ?f 2"
    let ?init = "httpGet_init example_platform ?c"
    have o: "\<forall>j<2. refused (outcome_at ?f world0 (?url, ?init) j)"
      by (simp add: scripted_outcome less_2_cases_iff)
    have g: "outcome_at ?f world0 (?url, ?init) 2 = Inr response_200"
      by (simp add: scripted_outcome)
    show ?thesis
      using retry_budget_transport_calls [where c = ?c and f = ?f and url = ?url and init = ?init
          and w = world0 and k = 2 and r = response_200 and p = example_platform
          and endpoint = "''/status''" and body = "[]" and href = ?url] o g
      by (simp add: u world0_def)
  qed
  have b: "let res = httpGet example_platform
          (example_client (scripted [Inr response_503, Inr response_503, Inr response_503, Inr response_200]) 2)
          ''/status'' [] world0
    in fst res = Inl (Error (errorMessage response_503)) \<and> length (calls (snd res)) = 3"
  proof -
    let ?f = "scripted [Inr response_503, Inr response_503, Inr response_503, Inr response_200]"
    let ?c = "example_client ?f 2"
    let ?init = "httpGet_init example_platform ?c"
    have o: "\<forall>j\<le>2. refused (outcome_at ?f world0 (?url, ?init) j)"
      by (simp add: scripted_outcome le_Suc_eq numeral_2_eq_2)
    have g: "outcome_at ?f world0 (?url, ?init) 2 = Inr response_503"
      by (simp add: scripted_outcome)
    show ?thesis
      using retry_budget_transport_calls [where c = ?c and f = ?f and url = ?url and init = ?init
          and w = world0 and p = example_platform and endpoint = "''/status''" and body = "[]"
          and href = ?url] o g
      by (simp add: u world0_def)
  qed
  have c: "let res = httpPost example_platform store0
          (example_client (scripted [Inr response_503, Inr response_503, Inr response_503, Inr response_503, Inr response_200]) 3)
          ''/call'' [] world0
    in fst res = Inl (Error (errorMessage response_503)) \<and> length (calls (snd res)) = 4"
  proof -
    let ?f = "scripted [Inr response_503, Inr response_503, Inr response_503, Inr response_503, Inr response_200]"
    let ?c = "example_client ?f 3"
    let ?hs = "[(''Content-Type'', ''application/json'')]"
    let ?t = "httpPost_payload ?hs ''/call'' []"
    let ?init = "httpPost_init ?c ?hs ?t"
    have o: "\<forall>j\<le>3. refused (outcome_at ?f world0 (''https://astrox.app/call'', ?init) j)"
      by (simp add: scripted_outcome le_Suc_eq numeral_3_eq_3)
    have g: "outcome_at ?f world0 (''https://astrox.app/call'', ?init) 3 = Inr response_503"
      by (simp add: scripted_outcome)
    have t: "transform store0 ?c ?t = Inr ?t" by (simp add: transform_empty)
    show ?thesis
      using retry_budget_transport_calls [where c = ?c and f = ?f and url = "''https://astrox.app/call''"
          and init = ?init and w = world0 and p = example_platform and endpoint = "''/call''"
          and body = "[]" and href = "''https://astrox.app/call''" and st = store0 and t = ?t
          and hs = ?hs] o g t
      by (simp add: world0_def)
  qed
  show ?thesis using a b c by simp
qed


subsection \<open>A budget of zero\<close>

text \<open>
  C2 says that a budget of zero lifts the bound on retries. In the code the test that
  decides on a retry is \<^verbatim>\<open>this._retryTimes > tries\<close>, which fails at once when the budget
  is zero: against a server that answers 503 and then 200, \<^verbatim>\<open>httpGet\<close> raises the
  error of the 503 after one call, and never sees the 200.
\<close>

theorem zero_budget_counterexample:
  "fst (httpGet example_platform
          (example_client (scripted [Inr response_503, Inr response_200]) 0) ''/status'' [] world0)
     = Inl (Error (errorMessage response_503))
   \<and> length (calls (snd (httpGet example_platform
          (example_client (scripted [Inr response_503, Inr response_200]) 0) ''/status'' [] world0))) = 1"
proof -
  let ?f = "scripted [Inr response_503, Inr response_200]"
  let ?c = "example_client ?f 0"
  have u: "httpGet_url example_platform ''/status'' [] = ''/status''" by simp
  have g: "\<not> (0 > retryTimes ?c \<and> retryTimes ?c \<noteq> 0)" by simp
  have "httpGet example_platform ?c ''/status'' [] world0
          = requestAndRetry ?c (invoke_fetch ?f ''https://astrox.app/status'' (httpGet_init example_platform ?c)) 0 world0"
    using httpGet_run [of example_platform "''/status''" "[]" ?c "''https://astrox.app/status''" world0]
    by (simp add: u)
  then show ?thesis
    by (simp add: retry_step [OF g] scripted_outcome) (simp add: world0_def)
qed

text \<open>
  C2, as amended. With a budget of exactly zero no retry is made: the loop calls the
  transport primitive once; when the call completes with a response that is not ok, the
  error built from that response is raised at once; an ok response is returned, and a
  failure of the call is passed on.
\<close>

theorem zero_budget_single_call:
  "retryTimes c = 0 \<Longrightarrow>
   requestAndRetry c (invoke_fetch f url init) 0 w =
     (case outcome_at f w (url, init) 0 of
        Inl e \<Rightarrow> Inl e
      | Inr r \<Rightarrow> if ok r then Inr r else Inl (Error (errorMessage r)),
      w\<lparr>calls := calls w @ [(url, init)]\<rparr>)"
  by (simp add: retry_step split: sum.splits)

theorem zero_budget_single_call_witness:
  "requestAndRetry (example_client (scripted [Inr response_503, Inr response_200]) 0)
     (invoke_fetch (scripted [Inr response_503, Inr response_200]) ''https://astrox.app/status'' JUndefined) 0 world0
   = (Inl (Error (errorMessage response_503)),
      \<lparr>calls = [(''https://astrox.app/status'', JUndefined)], warnings = []\<rparr>)"
  using zero_budget_single_call [of "example_client (scripted [Inr response_503, Inr response_200]) 0"
      "scripted [Inr response_503, Inr response_200]" "''https://astrox.app/status''" JUndefined world0]
  by (simp add: scripted_outcome) (simp add: world0_def)

subsection \<open>Failures of the transport primitive\<close>

text \<open>
  C6. When a call of the transport primitive fails to complete, the loop ends with that
  failure and the world is left as the failed call left it: no further call is made and
  no warning is written. This holds for every budget and at every attempt that reaches
  the transport primitive; in particular, after \<open>k\<close> responses that are not ok, a
  failure of the next call ends the request after exactly \<open>k + 1\<close> calls.
\<close>

theorem transport_failure_not_retried:
  "(\<not> (tries > retryTimes c \<and> retryTimes c \<noteq> 0) \<and> outcome_at f w (url, init) 0 = Inl e \<longrightarrow>
      requestAndRetry c (invoke_fetch f url init) tries w = (Inl e, w\<lparr>calls := calls w @ [(url, init)]\<rparr>))
   \<and> (int k \<le> retryTimes c \<and> (\<forall>j<k. refused (outcome_at f w (url, init) j)) \<and>
        outcome_at f w (url, init) k = Inl e \<longrightarrow>
        fst (requestAndRetry c (invoke_fetch f url init) 0 w) = Inl e \<and>
        calls (snd (requestAndRetry c (invoke_fetch f url init) 0 w)) = calls w @ replicate (k + 1) (url, init))"
proof -
  have a: "\<not> (tries > retryTimes c \<and> retryTimes c \<noteq> 0) \<and> outcome_at f w (url, init) 0 = Inl e \<longrightarrow>
      requestAndRetry c (invoke_fetch f url init) tries w = (Inl e, w\<lparr>calls := calls w @ [(url, init)]\<rparr>)"
    by (simp add: retry_step)
  have b: "int k \<le> retryTimes c \<and> (\<forall>j<k. refused (outcome_at f w (url, init) j)) \<and>
        outcome_at f w (url, init) k = Inl e \<longrightarrow>
        fst (requestAndRetry c (invoke_fetch f url init) 0 w) = Inl e \<and>
        calls (snd (requestAndRetry c (invoke_fetch f url init) 0 w)) = calls w @ replicate (k + 1) (url, init)"
    using run_until [of k 0 c f w url init] by (simp add: refused_def)
  from a b show ?thesis by blast
qed

theorem transport_failure_not_retried_witness:
  "requestAndRetry (example_client (scripted [Inl (Rejected ''connection reset''), Inr response_200]) 3)
     (invoke_fetch (scripted [Inl (Rejected ''connection reset''), Inr response_200]) ''https://astrox.app/status'' JUndefined) 0 world0
   = (Inl (Rejected ''connection reset''), \<lparr>calls = [(''https://astrox.app/status'', JUndefined)], warnings = []\<rparr>)
   \<and> fst (requestAndRetry (example_client (scripted [Inr response_503, Inl (Rejected ''connection reset''), Inr response_200]) 3)
     (invoke_fetch (scripted [Inr response_503, Inl (Rejected ''connection reset''), Inr response_200]) ''https://astrox.app/status'' JUndefined) 0 world0)
     = Inl (Rejected ''connection reset'')
   \<and> calls (snd (requestAndRetry (example_client (scripted [Inr response_503, Inl (Rejected ''connection reset''), Inr response_200]) 3)
     (invoke_fetch (scripted [Inr response_503, Inl (Rejected ''connection reset''), Inr response_200]) ''https://astrox.app/status'' JUndefined) 0 world0))
     = [(''https://astrox.app/status'', JUndefined), (''https://astrox.app/status'', JUndefined)]"
proof -
  let ?f = "scripted [Inl (Rejected ''connection reset''), Inr response_200]"
  let ?g = "scripted [Inr response_503, Inl (Rejected ''connection reset''), Inr response_200]"
  have a: "requestAndRetry (example_client ?f 3) (invoke_fetch ?f ''https://astrox.app/status'' JUndefined) 0 world0
   = (Inl (Rejected ''connection reset''), \<lparr>calls = [(''https://astrox.app/status'', JUndefined)], warnings = []\<rparr>)"
    using transport_failure_not_retried [where c = "example_client ?f 3" and f = ?f and tries = 0
        and url = "''https://astrox.app/status''" and init = JUndefined and w = world0
        and e = "Rejected ''connection reset''" and k = 0]
    by (simp add: scripted_outcome) (simp add: world0_def)
  have b: "fst (requestAndRetry (example_client ?g 3) (invoke_fetch ?g ''https://astrox.app/status'' JUndefined) 0 world0)
     = Inl (Rejected ''connection reset'')
   \<and> calls (snd (requestAndRetry (example_client ?g 3) (invoke_fetch ?g ''https://astrox.app/status'' JUndefined) 0 world0))
     = [(''https://astrox.app/status'', JUndefined), (''https://astrox.app/status'', JUndefined)]"
    using transport_failure_not_retried [where c = "example_client ?g 3" and f = ?g and tries = 0
        and url = "''https://astrox.app/status''" and init = JUndefined and w = world0
        and e = "Rejected ''connection reset''" and k = 1]
    by (simp add: scripted_outcome) (simp add: world0_def)
  from a b show ?thesis by simp
qed

section \<open>The transform pipeline\<close>

subsection \<open>Where addTransform inserts\<close>

lemma findIndex_nonneg_iff: "findIndex P xs \<ge> 0 \<longleftrightarrow> (\<exists>x\<in>set xs. P x)"
  by (induction xs) (auto simp: Let_def)

lemma findIndex_takeWhile:
  "\<exists>x\<in>set xs. P x \<Longrightarrow> nat (findIndex P xs) = length (takeWhile (\<lambda>x. \<not> P x) xs)"
proof (induction xs)
  case Nil
  then show ?case by simp
next
  case (Cons a xs)
  show ?case
  proof (cases "P a")
    case True
    then show ?thesis by simp
  next
    case False
    with Cons.prems have ex: "\<exists>x\<in>set xs. P x" by simp
    then have "findIndex P xs \<ge> 0" by (simp add: findIndex_nonneg_iff)
    with False Cons.IH [OF ex] show ?thesis by (simp add: Let_def nat_add_distrib)
  qed
qed

lemma splice_position:
  "(if findIndex P xs \<ge> 0 then nat (findIndex P xs) else length xs) = length (takeWhile (\<lambda>x. \<not> P x) xs)"
proof (cases "\<exists>x\<in>set xs. P x")
  case True
  then show ?thesis by (simp add: findIndex_nonneg_iff findIndex_takeWhile)
next
  case False
  then have "length (takeWhile (\<lambda>x. \<not> P x) xs) = length xs"
    by (induction xs) auto
  with False show ?thesis by (simp add: findIndex_nonneg_iff)
qed

lemma splice_insert_findIndex:
  "splice_insert xs (if findIndex P xs \<ge> 0 then nat (findIndex P xs) else length xs) a
     = takeWhile (\<lambda>x. \<not> P x) xs @ a # dropWhile (\<lambda>x. \<not> P x) xs"
  by (simp only: splice_position splice_insert_def takeWhile_eq_take [symmetric] dropWhile_eq_drop [symmetric])

lemma addTransform_unfold:
  "addTransform fn arg (st, c) =
     (let prio = (case arg of Some v \<Rightarrow> v | None \<Rightarrow> priority_or0 (st fn)) in
      (st(fn := (st fn)\<lparr>priority := Some prio\<rparr>),
       c\<lparr>pipeline := takeWhile (\<lambda>x. \<not> priority_or0 (st x) < prio) (pipeline c) @
                       fn # dropWhile (\<lambda>x. \<not> priority_or0 (st x) < prio) (pipeline c)\<rparr>))"
  by (simp add: addTransform_def Let_def splice_insert_findIndex del: findIndex.simps)

lemma sorted_desc_dropWhile:
  "sorted_wrt (\<ge>) (map f xs) \<Longrightarrow> \<forall>x\<in>set (dropWhile (\<lambda>x. \<not> f x < p) xs). f x < (p::int)"
proof (induction xs)
  case Nil
  then show ?case by simp
next
  case (Cons a xs)
  from Cons.prems have le: "\<forall>x\<in>set xs. f x \<le> f a" and s: "sorted_wrt (\<ge>) (map f xs)"
    by simp_all
  show ?case
  proof (cases "f a < p")
    case True
    have "\<forall>x\<in>set (a # xs). f x < p"
    proof
      fix x assume "x \<in> set (a # xs)"
      then have "x = a \<or> x \<in> set xs" by simp
      then show "f x < p"
      proof
        assume "x = a" with True show ?thesis by simp
      next
        assume "x \<in> set xs"
        with le have "f x \<le> f a" by blast
        with True show ?thesis by linarith
      qed
    qed
    with True show ?thesis by simp
  next
    case False
    then have "dropWhile (\<lambda>x. \<not> f x < p) (a # xs) = dropWhile (\<lambda>x. \<not> f x < p) xs"
      by simp
    then show ?thesis using Cons.IH [OF s] by (simp only:)
  qed
qed

lemma sorted_desc_insert:
  assumes "sorted_wrt (\<ge>) (map f xs)" and "f a = (p::int)"
  shows "sorted_wrt (\<ge>) (map f (takeWhile (\<lambda>x. \<not> f x < p) xs @ a # dropWhile (\<lambda>x. \<not> f x < p) xs))"
proof -
  define tw where "tw = takeWhile (\<lambda>x. \<not> f x < p) xs"
  define dw where "dw = dropWhile (\<lambda>x. \<not> f x < p) xs"
  have split: "xs = tw @ dw" by (simp add: tw_def dw_def)
  have tw: "\<forall>x\<in>set tw. f x \<ge> p" unfolding tw_def by (auto dest: set_takeWhileD)
  have dw: "\<forall>x\<in>set dw. f x < p" unfolding dw_def using assms(1) by (rule sorted_desc_dropWhile)
  from assms(1) have "sorted_wrt (\<ge>) (map f tw)" "sorted_wrt (\<ge>) (map f dw)"
    unfolding split by (simp_all add: sorted_wrt_append)
  with tw dw assms(2) have "sorted_wrt (\<ge>) (map f (tw @ a # dw))"
    by (fastforce simp: sorted_wrt_append)
  then show ?thesis by (simp only: tw_def dw_def)
qed

lemma filter_desc_insert:
  assumes "sorted_wrt (\<ge>) (map f xs)" and "f a = (p::int)"
  shows "filter (\<lambda>x. f x = k) (takeWhile (\<lambda>x. \<not> f x < p) xs @ a # dropWhile (\<lambda>x. \<not> f x < p) xs)
           = filter (\<lambda>x. f x = k) (xs @ [a])"
proof -
  define tw where "tw = takeWhile (\<lambda>x. \<not> f x < p) xs"
  define dw where "dw = dropWhile (\<lambda>x. \<not> f x < p) xs"
  have split: "xs = tw @ dw" by (simp add: tw_def dw_def)
  have dw: "\<forall>x\<in>set dw. f x < p" unfolding dw_def using assms(1) by (rule sorted_desc_dropWhile)
  have "filter (\<lambda>x. f x = k) (tw @ a # dw) = filter (\<lambda>x. f x = k) ((tw @ dw) @ [a])"
  proof (cases "k = p")
    case True
    with dw have "filter (\<lambda>x. f x = k) dw = []" by (auto simp: filter_empty_conv)
    then show ?thesis by simp
  next
    case False
    with assms(2) show ?thesis by simp
  qed
  then show ?thesis unfolding split [symmetric] by (simp only: tw_def dw_def)
qed

lemma addTransforms_Cons:
  "addTransforms ((fn, arg) # adds) sc = addTransforms adds (addTransform fn arg sc)"
  by (simp add: addTransforms_def)

lemma addTransform_step:
  assumes notin: "fn \<notin> set (pipeline c)"
    and sorted: "sorted_wrt (\<ge>) (map (\<lambda>x. priority_or0 (st x)) (pipeline c))"
    and step: "addTransform fn arg (st, c) = (st1, c1)"
  shows "sorted_wrt (\<ge>) (map (\<lambda>x. priority_or0 (st1 x)) (pipeline c1))"
    and "filter (\<lambda>x. priority_or0 (st1 x) = k) (pipeline c1)
           = filter (\<lambda>x. priority_or0 (st1 x) = k) (pipeline c @ [fn])"
    and "set (pipeline c1) = insert fn (set (pipeline c))"
    and "distinct (pipeline c) \<Longrightarrow> distinct (pipeline c1)"
    and "st1 = st(fn := (st fn)\<lparr>priority := Some (case arg of Some v \<Rightarrow> v | None \<Rightarrow> priority_or0 (st fn))\<rparr>)"
proof -
  define prio where "prio = (case arg of Some v \<Rightarrow> v | None \<Rightarrow> priority_or0 (st fn))"
  define f1 where "f1 = (\<lambda>x. priority_or0 (st1 x))"
  define xs where "xs = pipeline c"
  have st1: "st1 = st(fn := (st fn)\<lparr>priority := Some prio\<rparr>)"
    and c1: "pipeline c1 = takeWhile (\<lambda>x. \<not> priority_or0 (st x) < prio) xs @
                          fn # dropWhile (\<lambda>x. \<not> priority_or0 (st x) < prio) xs"
    using step by (auto simp: addTransform_unfold Let_def prio_def xs_def)
  have same: "\<And>x. x \<in> set xs \<Longrightarrow> priority_or0 (st x) = f1 x"
    using notin by (auto simp: st1 f1_def xs_def)
  have f1fn: "f1 fn = prio" by (simp add: f1_def st1 priority_or0_def)
  have tw: "takeWhile (\<lambda>x. \<not> priority_or0 (st x) < prio) xs = takeWhile (\<lambda>x. \<not> f1 x < prio) xs"
    by (rule takeWhile_cong) (simp_all add: same)
  have dw: "dropWhile (\<lambda>x. \<not> priority_or0 (st x) < prio) xs = dropWhile (\<lambda>x. \<not> f1 x < prio) xs"
    by (rule dropWhile_cong) (simp_all add: same)
  have c1': "pipeline c1 = takeWhile (\<lambda>x. \<not> f1 x < prio) xs @ fn # dropWhile (\<lambda>x. \<not> f1 x < prio) xs"
    by (simp only: c1 tw dw)
  have "map (\<lambda>x. priority_or0 (st x)) xs = map f1 xs"
    by (rule map_cong) (simp_all add: same)
  with sorted have s1: "sorted_wrt (\<ge>) (map f1 xs)" by (simp only: xs_def)
  show "sorted_wrt (\<ge>) (map (\<lambda>x. priority_or0 (st1 x)) (pipeline c1))"
    using sorted_desc_insert [OF s1 f1fn] by (simp only: c1' f1_def)
  show "filter (\<lambda>x. priority_or0 (st1 x) = k) (pipeline c1)
           = filter (\<lambda>x. priority_or0 (st1 x) = k) (pipeline c @ [fn])"
    using filter_desc_insert [OF s1 f1fn, of k] by (simp only: c1' f1_def xs_def)
  define tw1 where "tw1 = takeWhile (\<lambda>x. \<not> f1 x < prio) xs"
  define dw1 where "dw1 = dropWhile (\<lambda>x. \<not> f1 x < prio) xs"
  have twdw: "tw1 @ dw1 = xs" by (simp add: tw1_def dw1_def)
  have c1'': "pipeline c1 = tw1 @ fn # dw1" by (simp only: c1' tw1_def dw1_def)
  have "set (tw1 @ fn # dw1) = insert fn (set (tw1 @ dw1))" by simp
  then show "set (pipeline c1) = insert fn (set (pipeline c))"
    by (simp only: c1'' twdw xs_def)
  show "distinct (pipeline c1)" if d: "distinct (pipeline c)"
  proof -
    from d have "distinct (tw1 @ dw1)" by (simp only: twdw xs_def)
    moreover from notin have "fn \<notin> set (tw1 @ dw1)" unfolding twdw xs_def .
    ultimately have "distinct (tw1 @ fn # dw1)" by auto
    then show ?thesis by (simp only: c1'')
  qed
  show "st1 = st(fn := (st fn)\<lparr>priority := Some (case arg of Some v \<Rightarrow> v | None \<Rightarrow> priority_or0 (st fn))\<rparr>)"
    by (simp only: st1 prio_def)
qed

lemma addTransforms_invariant:
  assumes "distinct (pipeline c @ map fst adds)"
    and "sorted_wrt (\<ge>) (map (\<lambda>x. priority_or0 (st x)) (pipeline c))"
    and "addTransforms adds (st, c) = (st', c')"
  shows "sorted_wrt (\<ge>) (map (\<lambda>x. priority_or0 (st' x)) (pipeline c')) \<and>
         (\<forall>k. filter (\<lambda>x. priority_or0 (st' x) = k) (pipeline c')
               = filter (\<lambda>x. priority_or0 (st' x) = k) (pipeline c @ map fst adds)) \<and>
         (\<forall>x. x \<notin> set (map fst adds) \<longrightarrow> st' x = st x) \<and>
         (\<forall>(fn, arg)\<in>set adds.
            priority (st' fn) = Some (case arg of Some v \<Rightarrow> v | None \<Rightarrow> priority_or0 (st fn)))"
  using assms
proof (induction adds arbitrary: st c)
  case Nil
  then show ?case by (simp add: addTransforms_def)
next
  case (Cons a adds)
  obtain fn arg where a: "a = (fn, arg)" by (cases a)
  obtain st1 c1 where step: "addTransform fn arg (st, c) = (st1, c1)"
    by (cases "addTransform fn arg (st, c)")
  from Cons.prems(1) have notin: "fn \<notin> set (pipeline c)" and dc: "distinct (pipeline c)"
    and dr: "distinct (map fst adds)" and fr: "fn \<notin> set (map fst adds)"
    and disj: "set (pipeline c) \<inter> set (map fst adds) = {}"
    by (auto simp: a)
  note facts = addTransform_step [OF notin Cons.prems(2) step]
  have d1: "distinct (pipeline c1 @ map fst adds)"
    using facts(4) [OF dc] facts(3) dr fr disj by auto
  have run: "addTransforms adds (st1, c1) = (st', c')"
    using Cons.prems(3) by (simp add: a addTransforms_Cons step)
  note ih = Cons.IH [OF d1 facts(1) run]
  from ih have sorted': "sorted_wrt (\<ge>) (map (\<lambda>x. priority_or0 (st' x)) (pipeline c'))"
    and filt: "\<And>k. filter (\<lambda>x. priority_or0 (st' x) = k) (pipeline c')
               = filter (\<lambda>x. priority_or0 (st' x) = k) (pipeline c1 @ map fst adds)"
    and frame: "\<And>x. x \<notin> set (map fst adds) \<Longrightarrow> st' x = st1 x"
    and prios: "\<forall>(fn', arg')\<in>set adds.
            priority (st' fn') = Some (case arg' of Some v \<Rightarrow> v | None \<Rightarrow> priority_or0 (st1 fn'))"
    by blast+
  have same1: "\<And>x. x \<in> set (pipeline c1) \<Longrightarrow> st' x = st1 x"
    using frame d1 by auto
  have same2: "\<And>x. x \<in> set (pipeline c @ [fn]) \<Longrightarrow> st' x = st1 x"
    using frame fr disj by auto
  have f: "filter (\<lambda>x. priority_or0 (st' x) = k) (pipeline c')
               = filter (\<lambda>x. priority_or0 (st' x) = k) (pipeline c @ map fst (a # adds))" for k
  proof -
    have "filter (\<lambda>x. priority_or0 (st' x) = k) (pipeline c1)
            = filter (\<lambda>x. priority_or0 (st1 x) = k) (pipeline c1)"
      by (rule filter_cong) (simp_all add: same1)
    also have "\<dots> = filter (\<lambda>x. priority_or0 (st1 x) = k) (pipeline c @ [fn])"
      by (rule facts(2))
    also have "\<dots> = filter (\<lambda>x. priority_or0 (st' x) = k) (pipeline c @ [fn])"
      by (rule filter_cong) (simp_all only: same2)
    finally have "filter (\<lambda>x. priority_or0 (st' x) = k) (pipeline c1 @ map fst adds)
            = filter (\<lambda>x. priority_or0 (st' x) = k) ((pipeline c @ [fn]) @ map fst adds)"
      by (simp only: filter_append)
    then show ?thesis by (simp add: filt a)
  qed
  have fr': "\<forall>x. x \<notin> set (map fst (a # adds)) \<longrightarrow> st' x = st x"
    using frame facts(5) by (auto simp: a)
  have p0: "priority (st' fn) = Some (case arg of Some v \<Rightarrow> v | None \<Rightarrow> priority_or0 (st fn))"
    using frame [OF fr] facts(5) by simp
  have p1: "\<forall>(fn', arg')\<in>set adds.
            priority (st' fn') = Some (case arg' of Some v \<Rightarrow> v | None \<Rightarrow> priority_or0 (st fn'))"
  proof (clarify)
    fix fn' arg' assume m: "(fn', arg') \<in> set adds"
    then have "fn' \<in> set (map fst adds)" by force
    with fr have ne: "fn' \<noteq> fn" by auto
    then have eq: "st1 fn' = st fn'" using facts(5) by simp
    from prios m have "priority (st' fn') = Some (case arg' of Some v \<Rightarrow> v | None \<Rightarrow> priority_or0 (st1 fn'))"
      by blast
    then show "priority (st' fn') = Some (case arg' of Some v \<Rightarrow> v | None \<Rightarrow> priority_or0 (st fn'))"
      by (simp only: eq)
  qed
  from sorted' f fr' p0 p1 show ?case by (simp add: a)
qed

subsection \<open>The order of the pipeline\<close>

text \<open>
  C3 says that of two transforms with the same priority the one added last comes first.
  \<^verbatim>\<open>findIndex\<close> looks for the first entry whose priority is strictly lower, so a new
  transform goes behind the entries of its own priority: adding function 1 and then
  function 2, both with priority 5, gives the pipeline 1, 2.
\<close>

theorem addTransform_tie_counterexample:
  "pipeline (snd (addTransforms [(1, Some 5), (2, Some 5)] (store0, example_client (scripted []) 3))) = [1, 2]"
  by (simp add: addTransforms_def addTransform_def store0_def priority_or0_def splice_insert_def Let_def)

text \<open>
  C3, as amended. For every sequence of \<^verbatim>\<open>addTransform\<close> calls on a client with an
  empty pipeline that registers pairwise distinct function objects, the pipeline is
  sorted by descending priority, each function has the priority it was registered with
  (the argument, or else its own \<^verbatim>\<open>priority\<close> property, or else 0), and the transforms
  of one priority stand in the order in which they were added, the most recently added
  last.
\<close>

theorem addTransform_sorted_stable:
  assumes "pipeline c = []" and "distinct (map fst adds)"
    and "addTransforms adds (st, c) = (st', c')"
  shows "sorted_wrt (\<ge>) (map (\<lambda>x. priority_or0 (st' x)) (pipeline c')) \<and>
         (\<forall>k. filter (\<lambda>x. priority_or0 (st' x) = k) (pipeline c')
               = filter (\<lambda>x. priority_or0 (st' x) = k) (map fst adds)) \<and>
         (\<forall>(fn, arg)\<in>set adds.
            priority (st' fn) = Some (case arg of Some v \<Rightarrow> v | None \<Rightarrow> priority_or0 (st fn)))"
  using addTransforms_invariant [of c adds st st' c'] assms by simp

theorem addTransform_sorted_stable_witness:
  "sorted_wrt (\<ge>)
     (map (\<lambda>x. priority_or0 (fst (addTransforms [(1, Some 5), (2, Some 10), (3, Some 1)]
                                    (store0, example_client (scripted []) 3)) x))
        (pipeline (snd (addTransforms [(1, Some 5), (2, Some 10), (3, Some 1)]
                          (store0, example_client (scripted []) 3)))))
   \<and> pipeline (snd (addTransforms [(1, Some 5), (2, Some 10), (3, Some 1)]
                      (store0, example_client (scripted []) 3))) = [2, 1, 3]
   \<and> map (\<lambda>x. priority_or0 (fst (addTransforms [(1, Some 5), (2, Some 10), (3, Some 1)]
                                    (store0, example_client (scripted []) 3)) x)) [2, 1, 3]
       = [10, 5, 1]"
proof -
  let ?adds = "[(1, Some 5), (2, Some 10), (3, Some 1)] :: (ref \<times> int option) list"
  let ?c = "example_client (scripted []) 3"
  let ?R = "addTransforms ?adds (store0, ?c)"
  have "sorted_wrt (\<ge>) (map (\<lambda>x. priority_or0 (fst ?R x)) (pipeline (snd ?R)))"
    using addTransform_sorted_stable [of ?c ?adds store0 "fst ?R" "snd ?R"] by simp
  moreover have "pipeline (snd ?R) = [2, 1, 3]"
    by (simp add: addTransforms_def addTransform_def store0_def priority_or0_def splice_insert_def Let_def)
  moreover have "map (\<lambda>x. priority_or0 (fst ?R x)) [2, 1, 3] = [10, 5, 1]"
    by (simp add: addTransforms_def addTransform_def store0_def priority_or0_def splice_insert_def Let_def)
  ultimately show ?thesis by (simp only: simp_thms)
qed

text \<open>
  The restriction to distinct function objects is needed: \<^verbatim>\<open>Object.assign\<close> writes
  the new priority into the function object, which an earlier entry of the pipeline may
  share. Registering function 1 with priority 5, function 2 with priority 3 and function
  1 again with priority 1 leaves the pipeline 1, 2, 1 with priorities 1, 3, 1.
\<close>

lemma registering_twice_unsorted:
  "(case addTransforms [(1, Some 5), (2, Some 3), (1, Some 1)] (store0, example_client (scripted []) 3) of
      (st, c) \<Rightarrow> (pipeline c, map (\<lambda>x. priority_or0 (st x)) (pipeline c)))
   = ([1, 2, 1], [1, 3, 1])"
  by (simp add: addTransforms_def addTransform_def store0_def priority_or0_def splice_insert_def Let_def)

subsection \<open>Applying the pipeline\<close>

lemma promise_then_simps [simp]:
  "promise_then (Inl e) f = Inl e" "promise_then (Inr v) f = f v"
  by (simp_all add: promise_then_def)

lemma transform_rejected:
  "foldl (\<lambda>p fn. promise_then p (g fn)) (Inl e) fns = Inl e"
  by (induction fns) simp_all

lemma transform_Cons:
  "transform st (c\<lparr>pipeline := fn # fns\<rparr>) r =
     (case run (st fn) r of
        Inl e \<Rightarrow> Inl e
      | Inr r2 \<Rightarrow> transform st (c\<lparr>pipeline := fns\<rparr>) (if truthy r2 then r2 else r))"
  by (cases "run (st fn) r") (simp_all add: transform_def js_or_def transform_rejected)

lemma requestAndRetry_budget_only:
  "retryTimes c' = retryTimes c \<Longrightarrow>
   requestAndRetry c' request tries w = requestAndRetry c request tries w"
proof (induction c request tries w rule: requestAndRetry.induct)
  case (1 c request tries w)
  show ?case
  proof (cases "tries > retryTimes c \<and> retryTimes c \<noteq> 0")
    case True
    with 1 show ?thesis
      by (subst requestAndRetry.simps, subst (2) requestAndRetry.simps) simp
  next
    case False
    obtain out w1 where rq: "request w = (out, w1)" by (cases "request w")
    show ?thesis
    proof (cases out)
      case (Inl e)
      with False rq "1.prems" show ?thesis
        by (subst requestAndRetry.simps, subst (2) requestAndRetry.simps) auto
    next
      case (Inr r)
      show ?thesis
      proof (cases "\<not> ok r \<and> retryTimes c > tries")
        case True
        have "requestAndRetry c' request (tries + 1) (console_warn (errorMessage r @ ''  Retrying request.'') w1)
              = requestAndRetry c request (tries + 1) (console_warn (errorMessage r @ ''  Retrying request.'') w1)"
          using "1.IH" [OF False _ _ _ _ "1.prems"] rq Inr True by simp
        with False rq Inr True "1.prems" show ?thesis
          by (subst requestAndRetry.simps, subst (2) requestAndRetry.simps) simp
      next
        case nr: False
        with False rq Inr "1.prems" show ?thesis
          by (subst requestAndRetry.simps, subst (2) requestAndRetry.simps) auto
      qed
    qed
  qed
qed

lemma httpGet_ignores_pipeline:
  "httpGet p (c\<lparr>pipeline := fns\<rparr>) endpoint body w = httpGet p c endpoint body w"
proof -
  have "httpGet_request p (c\<lparr>pipeline := fns\<rparr>) url = httpGet_request p c url" for url
    by (rule ext) (simp add: httpGet_request_def httpGet_init_def httpGet_headers_def split: option.splits)
  then show ?thesis
    by (simp add: httpGet_def requestAndRetry_budget_only [of "c\<lparr>pipeline := fns\<rparr>" c])
qed

text \<open>
  C5. Applying the pipeline gives the request to the first transform, and what that
  transform resolves to, to the rest of the pipeline, in the order of the list; when a
  transform resolves to \<^verbatim>\<open>undefined\<close> (or another falsy value), the request it was
  given goes on unchanged; a rejection ends the chain. \<^verbatim>\<open>httpPost\<close>, once its
  headers are built, applies the pipeline to the envelope before it calls the transport
  primitive (when the \<^verbatim>\<open>Headers\<close> constructor throws, \<^verbatim>\<open>httpPost\<close> ends with that
  error and the pipeline is not applied); \<^verbatim>\<open>httpGet\<close> does not depend on the
  pipeline.
\<close>

theorem transform_threads_in_order:
  "transform st (c\<lparr>pipeline := []\<rparr>) r = Inr r
   \<and> transform st (c\<lparr>pipeline := fn # fns\<rparr>) r =
       (case run (st fn) r of
          Inl e \<Rightarrow> Inl e
        | Inr r2 \<Rightarrow> transform st (c\<lparr>pipeline := fns\<rparr>) (if truthy r2 then r2 else r))
   \<and> (run (st fn) r = Inr JUndefined \<longrightarrow>
        transform st (c\<lparr>pipeline := fn # fns\<rparr>) r = transform st (c\<lparr>pipeline := fns\<rparr>) r)
   \<and> (Headers_new p (httpPost_headers_init p c) = Some hs \<longrightarrow>
        httpPost p st c endpoint body w =
          (case transform st c (httpPost_payload hs endpoint body) of
             Inl e \<Rightarrow> (Inl e, w)
           | Inr t \<Rightarrow> requestAndRetry c (httpPost_request p c endpoint hs t) 0 w))
   \<and> (Headers_new p (httpPost_headers_init p c) = None \<longrightarrow>
        httpPost p st c endpoint body w = (Inl TypeError, w))
   \<and> httpGet p (c\<lparr>pipeline := fns\<rparr>) endpoint body w = httpGet p c endpoint body w"
proof -
  have a: "transform st (c\<lparr>pipeline := []\<rparr>) r = Inr r" by (simp add: transform_def)
  have b: "run (st fn) r = Inr JUndefined \<longrightarrow>
        transform st (c\<lparr>pipeline := fn # fns\<rparr>) r = transform st (c\<lparr>pipeline := fns\<rparr>) r"
    by (simp add: transform_Cons)
  have d: "Headers_new p (httpPost_headers_init p c) = Some hs \<longrightarrow>
        httpPost p st c endpoint body w =
          (case transform st c (httpPost_payload hs endpoint body) of
             Inl e \<Rightarrow> (Inl e, w)
           | Inr t \<Rightarrow> requestAndRetry c (httpPost_request p c endpoint hs t) 0 w)"
    by (simp add: httpPost_def)
  have e: "Headers_new p (httpPost_headers_init p c) = None \<longrightarrow>
        httpPost p st c endpoint body w = (Inl TypeError, w)"
    by (simp add: httpPost_def)
  from a b d e transform_Cons [where st = st and c = c and fn = fn and fns = fns and r = r]
    httpGet_ignores_pipeline [where p = p and c = c and fns = fns and endpoint = endpoint and body = body and w = w]
  show ?thesis by (simp only: simp_thms)
qed

theorem transform_threads_in_order_witness:
  "transform example_store ((example_client (scripted []) 3)\<lparr>pipeline := [2, 4, 2]\<rparr>) (JStr ''req'')
     = Inr (JObj [(''seen'', JObj [(''seen'', JStr ''req'')])])
   \<and> httpGet example_platform ((example_client (scripted [Inr response_200]) 3)\<lparr>pipeline := [2, 4, 2]\<rparr>)
        ''/status'' [] world0
     = httpGet example_platform (example_client (scripted [Inr response_200]) 3) ''/status'' [] world0"
proof -
  let ?c = "example_client (scripted []) 3"
  have s1: "run (example_store 2) x = Inr (JObj [(''seen'', x)])" for x
    by (simp add: example_store_def)
  have s2: "run (example_store 4) x = Inr JUndefined" for x
    by (simp add: example_store_def)
  note t = transform_threads_in_order [where st = example_store and c = ?c]
  have e1: "transform example_store (?c\<lparr>pipeline := [2, 4, 2]\<rparr>) (JStr ''req'')
          = transform example_store (?c\<lparr>pipeline := [4, 2]\<rparr>) (JObj [(''seen'', JStr ''req'')])"
    using t [where fn = 2 and fns = "[4, 2]" and r = "JStr ''req''"] by (simp add: s1)
  have e2: "transform example_store (?c\<lparr>pipeline := [4, 2]\<rparr>) (JObj [(''seen'', JStr ''req'')])
          = transform example_store (?c\<lparr>pipeline := [2]\<rparr>) (JObj [(''seen'', JStr ''req'')])"
    using t [where fn = 4 and fns = "[2]" and r = "JObj [(''seen'', JStr ''req'')]"] by (simp add: s2)
  have e3: "transform example_store (?c\<lparr>pipeline := [2]\<rparr>) (JObj [(''seen'', JStr ''req'')])
          = Inr (JObj [(''seen'', JObj [(''seen'', JStr ''req'')])])"
    using t [where fn = 2 and fns = "[]" and r = "JObj [(''seen'', JStr ''req'')]"]
      t [where r = "JObj [(''seen'', JObj [(''seen'', JStr ''req'')])]"]
    by (simp add: s1)
  have g: "httpGet example_platform ((example_client (scripted [Inr response_200]) 3)\<lparr>pipeline := [2, 4, 2]\<rparr>)
        ''/status'' [] world0
     = httpGet example_platform (example_client (scripted [Inr response_200]) 3) ''/status'' [] world0"
    using transform_threads_in_order [where c = "example_client (scripted [Inr response_200]) 3"
        and fns = "[2, 4, 2]" and p = example_platform and endpoint = "''/status''" and body = "[]" and w = world0]
    by simp
  from e1 e2 e3 g show ?thesis by (simp only: simp_thms)
qed

section \<open>The query string of httpGet\<close>

lemma join_Cons:
  "join sep (x # xs) = x @ concat (map (\<lambda>y. sep @ y) xs)"
  by (induction xs arbitrary: x) simp_all

lemma url_loop_later:
  "0 < n \<Longrightarrow>
   fst (foldl (\<lambda>(url, n) id.
                 ((url @ (if n = (0::nat) then ''?'' else ''&'')) @ id @ ''='' @ toString p (lookup body id),
                  n + 1))
          (u, n) ks)
     = u @ concat (map (\<lambda>k. ''&'' @ k @ ''='' @ toString p (lookup body k)) ks)"
  by (induction ks arbitrary: u n) simp_all

lemma url_loop:
  "fst (foldl (\<lambda>(url, n) id.
                 ((url @ (if n = (0::nat) then ''?'' else ''&'')) @ id @ ''='' @ toString p (lookup body id),
                  n + 1))
          (endpoint, 0) ks)
     = endpoint @ (if ks = [] then []
                   else ''?'' @ join ''&'' (map (\<lambda>k. k @ ''='' @ toString p (lookup body k)) ks))"
proof (cases ks)
  case Nil
  then show ?thesis by simp
next
  case (Cons k rest)
  have "fst (foldl (\<lambda>(url, n) id.
                 ((url @ (if n = (0::nat) then ''?'' else ''&'')) @ id @ ''='' @ toString p (lookup body id),
                  n + 1))
          (endpoint, 0) ks)
          = fst (foldl (\<lambda>(url, n) id.
                 ((url @ (if n = (0::nat) then ''?'' else ''&'')) @ id @ ''='' @ toString p (lookup body id),
                  n + 1))
              (endpoint @ ''?'' @ k @ ''='' @ toString p (lookup body k), 1) rest)"
    by (simp add: Cons)
  also have "\<dots> = (endpoint @ ''?'' @ k @ ''='' @ toString p (lookup body k))
                     @ concat (map (\<lambda>k. ''&'' @ k @ ''='' @ toString p (lookup body k)) rest)"
    by (rule url_loop_later) simp
  finally show ?thesis
    by (simp add: Cons join_Cons comp_def)
qed

lemma httpGet_url_for_in:
  "httpGet_url p endpoint body = endpoint @ query_string p (for_in_pairs body)"
  unfolding httpGet_url_def url_loop
  by (simp add: query_string_def for_in_pairs_def comp_def)

lemma own_keys_insertion:
  assumes "\<forall>k\<in>set (map fst body). \<not> is_array_index k"
  shows "own_keys body = map fst body"
proof -
  from assms have "filter is_array_index (map fst body) = []"
    by (simp add: filter_empty_conv)
  moreover from assms have "filter (\<lambda>k. \<not> is_array_index k) (map fst body) = map fst body"
    by (simp add: filter_id_conv)
  ultimately show ?thesis by (simp add: own_keys_def)
qed

lemma lookup_distinct:
  "distinct (map fst ps) \<Longrightarrow> (k, v) \<in> set ps \<Longrightarrow> lookup ps k = v"
  by (induction ps) (auto simp: rev_image_eqI)

lemma for_in_pairs_insertion:
  assumes "\<forall>k\<in>set (map fst body). \<not> is_array_index k" and "distinct (map fst body)"
  shows "for_in_pairs body = body"
proof -
  have "\<And>kv. kv \<in> set body \<Longrightarrow> (fst kv, lookup body (fst kv)) = kv"
    using lookup_distinct [OF assms(2)] by (metis prod.collapse)
  then have "map (\<lambda>kv. (fst kv, lookup body (fst kv))) body = body"
    by (simp add: map_idI)
  then show ?thesis
    by (simp add: for_in_pairs_def own_keys_insertion [OF assms(1)] comp_def)
qed

lemma example_numbers [simp]:
  "number_toString p (Finite 0) = ''0''" "number_toString p (Finite 1) = ''1''"
  "number_toString p (Finite 2) = ''2''" "number_toString p (Finite 3) = ''3''"
  by (simp_all add: number_toString_def string_of_int_def)

text \<open>
  C7 says that the parameters are visited in the order of their insertion, for every
  mapping. \<^verbatim>\<open>for (const id in body)\<close> visits the keys that are array indices first, by
  ascending value: for the parameters inserted as \<^verbatim>\<open>b\<close>, \<^verbatim>\<open>1\<close>, \<^verbatim>\<open>a\<close>, \<^verbatim>\<open>0\<close> the
  address is \<^verbatim>\<open>/status?0=0&1=1&b=2&a=3\<close>, and not \<^verbatim>\<open>/status?b=2&1=1&a=3&0=0\<close>.
\<close>

theorem httpGet_query_order_counterexample:
  "httpGet_url example_platform ''/status''
     [(''b'', JNum (Finite 2)), (''1'', JNum (Finite 1)), (''a'', JNum (Finite 3)), (''0'', JNum (Finite 0))]
     = ''/status?0=0&1=1&b=2&a=3''
   \<and> ''/status'' @ query_string example_platform
         [(''b'', JNum (Finite 2)), (''1'', JNum (Finite 1)), (''a'', JNum (Finite 3)), (''0'', JNum (Finite 0))]
     = ''/status?b=2&1=1&a=3&0=0''"
proof -
  let ?body = "[(''b'', JNum (Finite 2)), (''1'', JNum (Finite 1)), (''a'', JNum (Finite 3)), (''0'', JNum (Finite 0))]"
  have k: "own_keys ?body = [''0'', ''1'', ''b'', ''a'']"
    by (simp add: own_keys_def is_array_index_def is_digit_def index_value_def sort_key_def)
  have a: "httpGet_url example_platform ''/status'' ?body = ''/status?0=0&1=1&b=2&a=3''"
    by (simp add: httpGet_url_for_in for_in_pairs_def k query_string_def)
  have b: "''/status'' @ query_string example_platform ?body = ''/status?b=2&1=1&a=3&0=0''"
    by (simp add: query_string_def)
  from a b show ?thesis by (simp only: simp_thms)
qed

text \<open>
  C7, as amended. For every parameter object, the address \<^verbatim>\<open>httpGet\<close> builds is the
  endpoint followed by the query string of the parameters in the order in which
  \<^verbatim>\<open>for ... in\<close> visits them, which is: the keys that are array indices by ascending
  value, then the other keys in the order of their insertion (not sorted). The query
  string is empty when there is no parameter, and otherwise a question mark and the pairs
  \<^verbatim>\<open>key=value\<close> joined by ampersands. When no key is an array index, the order is the
  order of insertion. This text, resolved against the host, is the address of the
  transport calls.
\<close>

theorem httpGet_query_in_for_in_order:
  "httpGet_url p endpoint body = endpoint @ query_string p (for_in_pairs body)
   \<and> for_in_pairs body = map (\<lambda>k. (k, lookup body k)) (own_keys body)
   \<and> own_keys body
       = sort_key index_value (filter is_array_index (map fst body)) @
         filter (\<lambda>k. \<not> is_array_index k) (map fst body)
   \<and> ((\<forall>k\<in>set (map fst body). \<not> is_array_index k) \<and> distinct (map fst body) \<longrightarrow>
        httpGet_url p endpoint body = endpoint @ query_string p body)
   \<and> (query_string p body = [] \<longleftrightarrow> body = [])
   \<and> (URL_href p (endpoint @ query_string p (for_in_pairs body)) (host c) = Some href \<longrightarrow>
        httpGet p c endpoint body w
          = requestAndRetry c (invoke_fetch (fetch c) href (httpGet_init p c)) 0 w)"
proof -
  have a: "(\<forall>k\<in>set (map fst body). \<not> is_array_index k) \<and> distinct (map fst body) \<longrightarrow>
        httpGet_url p endpoint body = endpoint @ query_string p body"
    using for_in_pairs_insertion [of body] by (simp add: httpGet_url_for_in)
  have b: "query_string p body = [] \<longleftrightarrow> body = []"
    by (simp add: query_string_def)
  have d: "URL_href p (endpoint @ query_string p (for_in_pairs body)) (host c) = Some href \<longrightarrow>
        httpGet p c endpoint body w
          = requestAndRetry c (invoke_fetch (fetch c) href (httpGet_init p c)) 0 w"
    using httpGet_run [of p endpoint body c href w] by (simp add: httpGet_url_for_in)
  from a b d httpGet_url_for_in [of p endpoint body] show ?thesis
    by (simp only: for_in_pairs_def own_keys_def simp_thms)
qed

theorem httpGet_query_in_for_in_order_witness:
  "httpGet_url example_platform ''/status'' [(''a'', JNum (Finite 1)), (''b'', JNum (Finite 2))] = ''/status?a=1&b=2''
   \<and> httpGet_url example_platform ''/status'' [(''b'', JNum (Finite 2)), (''a'', JNum (Finite 1))] = ''/status?b=2&a=1''
   \<and> httpGet_url example_platform ''/status'' [] = ''/status''
   \<and> calls (snd (httpGet example_platform (example_client (scripted [Inr response_200]) 3)
                     ''/status'' [(''a'', JNum (Finite 1)), (''b'', JNum (Finite 2))] world0))
       = [(''https://astrox.app/status?a=1&b=2'', JObj [(''headers'', JObj [])])]"
proof -
  let ?c = "example_client (scripted [Inr response_200]) 3"
  let ?ab = "[(''a'', JNum (Finite 1)), (''b'', JNum (Finite 2))]"
  let ?ba = "[(''b'', JNum (Finite 2)), (''a'', JNum (Finite 1))]"
  have na: "\<not> is_array_index ''a''" and nb: "\<not> is_array_index ''b''"
    by (simp_all add: is_array_index_def is_digit_def)
  have q1: "query_string example_platform ?ab = ''?a=1&b=2''"
    and q2: "query_string example_platform ?ba = ''?b=2&a=1''"
    by (simp_all add: query_string_def)
  note t = httpGet_query_in_for_in_order [where p = example_platform and c = ?c and w = world0
      and endpoint = "''/status''"]
  have a: "httpGet_url example_platform ''/status'' ?ab = ''/status?a=1&b=2''"
    using t [where body = ?ab] na nb by (simp add: q1)
  have b: "httpGet_url example_platform ''/status'' ?ba = ''/status?b=2&a=1''"
    using t [where body = ?ba] na nb by (simp add: q2)
  have c: "httpGet_url example_platform ''/status'' [] = ''/status''"
    using t [where body = "[]"] by (simp add: query_string_def for_in_pairs_def)
  have g: "\<not> (0 > retryTimes ?c \<and> retryTimes ?c \<noteq> 0)" by simp
  have i: "httpGet_init example_platform ?c = JObj [(''headers'', JObj [])]"
    by (simp add: httpGet_init_def httpGet_headers_def spread_opt_def)
  have f: "for_in_pairs ?ab = ?ab"
    using for_in_pairs_insertion [of ?ab] na nb by simp
  have "httpGet example_platform ?c ''/status'' ?ab world0
          = requestAndRetry ?c (invoke_fetch (scripted [Inr response_200]) ''https://astrox.app/status?a=1&b=2''
              (JObj [(''headers'', JObj [])])) 0 world0"
    using t [where body = ?ab and href = "''https://astrox.app/status?a=1&b=2''"]
    by (simp add: f q1 i)
  then have d: "calls (snd (httpGet example_platform ?c ''/status'' ?ab world0))
       = [(''https://astrox.app/status?a=1&b=2'', JObj [(''headers'', JObj [])])]"
    by (simp add: retry_step [OF g] scripted_outcome) (simp add: world0_def)
  from a b c d show ?thesis by (simp only: simp_thms)
qed

section \<open>Construction\<close>

lemma new_HttpClient_Inr:
  assumes "new_HttpClient p options = Inr c"
  obtains f h where
    "(case opt_fetch options of Some f \<Rightarrow> Inr f | None \<Rightarrow> getDefaultFetch p) = Inr f"
    "resolve_host p (opt_host options) = Inr h"
    "c = \<lparr> pipeline = [], fetch = f, fetchOptions = opt_fetchOptions options,
           callOptions = opt_callOptions options, timeDiffMsecs = 0,
           host = (if endsWith (hostname h) API_SUB_DOMAIN then h\<lparr>hostname := API_DOMAIN\<rparr> else h),
           credentials = map_option credentials_string (opt_credentials options),
           rootKeyFetched = False,
           retryTimes = (case opt_retryTimes options of None \<Rightarrow> 3 | Some n \<Rightarrow> n) \<rparr>"
  using assms by (auto simp: new_HttpClient_def split: sum.splits)

text \<open>
  C8. A client that is constructed has the host that the options and the page resolve
  to, with the hostname replaced by \<^verbatim>\<open>astrox.app\<close> when it ends with
  \<^verbatim>\<open>.astrox.app\<close>, and unchanged otherwise; the requests are resolved against this
  host. In particular, with a transport primitive given and a \<^verbatim>\<open>URL\<close> constructor
  that reads the hostname \<^verbatim>\<open>x.astrox.app\<close> from \<^verbatim>\<open>https://x.astrox.app\<close>, the
  client is constructed and its hostname is \<^verbatim>\<open>astrox.app\<close>.
\<close>

theorem managed_subdomain_rewritten:
  "(new_HttpClient p options = Inr c \<longrightarrow>
      (\<exists>h. resolve_host p (opt_host options) = Inr h \<and>
           host c = (if endsWith (hostname h) ''.astrox.app'' then h\<lparr>hostname := ''astrox.app''\<rparr> else h) \<and>
           (endsWith (hostname h) ''.astrox.app'' \<longrightarrow> hostname (host c) = ''astrox.app'')))
   \<and> (opt_fetch options = Some f \<and> opt_host options = Some ''https://x.astrox.app'' \<and>
        URL_new p ''https://x.astrox.app'' = Some u \<and> hostname u = ''x.astrox.app'' \<longrightarrow>
        (\<exists>c'. new_HttpClient p options = Inr c' \<and> hostname (host c') = ''astrox.app''))"
proof -
  have a: "new_HttpClient p options = Inr c \<longrightarrow>
      (\<exists>h. resolve_host p (opt_host options) = Inr h \<and>
           host c = (if endsWith (hostname h) ''.astrox.app'' then h\<lparr>hostname := ''astrox.app''\<rparr> else h) \<and>
           (endsWith (hostname h) ''.astrox.app'' \<longrightarrow> hostname (host c) = ''astrox.app''))"
  proof
    assume n: "new_HttpClient p options = Inr c"
    from n obtain f h where h: "resolve_host p (opt_host options) = Inr h"
      and c: "c = \<lparr> pipeline = [], fetch = f, fetchOptions = opt_fetchOptions options,
           callOptions = opt_callOptions options, timeDiffMsecs = 0,
           host = (if endsWith (hostname h) API_SUB_DOMAIN then h\<lparr>hostname := API_DOMAIN\<rparr> else h),
           credentials = map_option credentials_string (opt_credentials options),
           rootKeyFetched = False,
           retryTimes = (case opt_retryTimes options of None \<Rightarrow> 3 | Some n \<Rightarrow> n) \<rparr>"
      by (rule new_HttpClient_Inr)
    show "\<exists>h. resolve_host p (opt_host options) = Inr h \<and>
           host c = (if endsWith (hostname h) ''.astrox.app'' then h\<lparr>hostname := ''astrox.app''\<rparr> else h) \<and>
           (endsWith (hostname h) ''.astrox.app'' \<longrightarrow> hostname (host c) = ''astrox.app'')"
      using h by (intro exI [of _ h]) (simp add: c API_SUB_DOMAIN_def API_DOMAIN_def)
  qed
  have m: "match_scheme ''https://x.astrox.app''"
    by (simp add: match_scheme_def is_lower_def)
  have e: "endsWith ''x.astrox.app'' ''.astrox.app''"
    by (simp add: endsWith_def)
  have b: "opt_fetch options = Some f \<and> opt_host options = Some ''https://x.astrox.app'' \<and>
        URL_new p ''https://x.astrox.app'' = Some u \<and> hostname u = ''x.astrox.app'' \<longrightarrow>
        (\<exists>c'. new_HttpClient p options = Inr c' \<and> hostname (host c') = ''astrox.app'')"
    using m e by (auto simp: new_HttpClient_def resolve_host_def API_SUB_DOMAIN_def API_DOMAIN_def)
  from a b show ?thesis by blast
qed

lemma example_client_constructed:
  "new_HttpClient example_platform (example_options f) = Inr (example_client f 3)"
  by (simp add: new_HttpClient_def example_options_def example_platform_def resolve_host_def
      match_scheme_def is_lower_def example_url_def endsWith_def API_SUB_DOMAIN_def API_DOMAIN_def
      example_client_def)

text \<open>The example: the platform of the examples reads that address so.\<close>

theorem managed_subdomain_rewritten_witness:
  "(\<exists>c'. new_HttpClient example_platform (example_options (scripted [])) = Inr c' \<and>
         hostname (host c') = ''astrox.app'')
   \<and> hostname (host (example_client (scripted []) 3)) = ''astrox.app''"
proof -
  have "\<exists>c'. new_HttpClient example_platform (example_options (scripted [])) = Inr c' \<and>
         hostname (host c') = ''astrox.app''"
    using managed_subdomain_rewritten [where p = example_platform and options = "example_options (scripted [])"
        and f = "scripted []" and u = example_url]
    by (simp add: example_options_def example_platform_def example_url_def)
  moreover have "hostname (host (example_client (scripted []) 3)) = ''astrox.app''"
    using managed_subdomain_rewritten [where p = example_platform and options = "example_options (scripted [])"
        and c = "example_client (scripted []) 3"] example_client_constructed [of "scripted []"]
    by (auto simp: endsWith_def example_url_def example_platform_def example_options_def resolve_host_def
        match_scheme_def is_lower_def)
  ultimately show ?thesis by blast
qed

section \<open>What the transport call carries\<close>

lemma lookup_set_prop:
  "lookup (set_prop k v ps) k' = (if k' = k then v else lookup ps k')"
  by (induction ps) auto




lemma own_keys_payload_request [simp]:
  "own_keys (payload_request hs) = [''method'', ''headers'']"
  by (simp add: own_keys_def payload_request_def is_array_index_def is_digit_def)

lemma httpPost_init_props:
  "get_prop (httpPost_init c hs t) ''method'' = JStr ''POST''"
  "get_prop (httpPost_init c hs t) ''headers'' = JHeaders hs"
  "get_prop (httpPost_init c hs t) ''body'' = get_prop t ''body''"
  by (simp_all add: httpPost_init_def spread_def lookup_set_prop) (simp_all add: payload_request_def)

lemma httpPost_request_body_only:
  "get_prop t' ''body'' = get_prop t ''body'' \<Longrightarrow>
   httpPost_request p c endpoint hs t' = httpPost_request p c endpoint hs t"
proof -
  assume "get_prop t' ''body'' = get_prop t ''body''"
  then have "httpPost_init c hs t' = httpPost_init c hs t" by (simp add: httpPost_init_def)
  then have "httpPost_request p c endpoint hs t' w = httpPost_request p c endpoint hs t w" for w
    by (simp add: httpPost_request_def split: option.splits)
  then show ?thesis by (rule ext)
qed

text \<open>
  C10. With the headers \<open>hs\<close> that the \<^verbatim>\<open>Headers\<close> constructor made of what
  \<^verbatim>\<open>httpPost\<close> built, the request object that \<^verbatim>\<open>httpPost\<close> builds has the method
  \<^verbatim>\<open>POST\<close> and these headers, and so has the second argument of the transport call,
  whatever the pipeline resolved to and whatever the call options hold; the body of that
  argument is the \<^verbatim>\<open>body\<close> of what the pipeline resolved to. Two results of the
  pipeline with the same body give the same call. So a transform that resolves to a new
  request with another method or other headers changes neither the method nor the headers
  that are sent. When the constructor made the headers, the pipeline resolved and the
  address resolves, \<^verbatim>\<open>httpPost\<close> is the retry loop on that call.
\<close>

theorem httpPost_sends_built_method_and_headers:
  "get_prop (httpPost_payload hs endpoint body) ''request''
     = JObj [(''method'', JStr ''POST''), (''headers'', JHeaders hs)]
   \<and> get_prop (httpPost_init c hs t) ''method'' = JStr ''POST''
   \<and> get_prop (httpPost_init c hs t) ''headers'' = JHeaders hs
   \<and> get_prop (httpPost_init c hs t) ''body'' = get_prop t ''body''
   \<and> (get_prop t' ''body'' = get_prop t ''body'' \<longrightarrow>
        httpPost_request p c endpoint hs t' = httpPost_request p c endpoint hs t)
   \<and> (Headers_new p (httpPost_headers_init p c) = Some hs \<and>
        transform st c (httpPost_payload hs endpoint body) = Inr t \<and>
        URL_href p endpoint (host c) = Some href \<longrightarrow>
        httpPost p st c endpoint body w
          = requestAndRetry c (invoke_fetch (fetch c) href (httpPost_init c hs t)) 0 w)"
proof -
  have a: "get_prop (httpPost_payload hs endpoint body) ''request''
     = JObj [(''method'', JStr ''POST''), (''headers'', JHeaders hs)]"
    by (simp add: httpPost_payload_def payload_request_def)
  from a httpPost_init_props [of c hs t] httpPost_request_body_only [of t' t p c endpoint hs]
    httpPost_run [of p c hs endpoint href st body t w]
  show ?thesis by blast
qed

theorem httpPost_sends_built_method_and_headers_witness:
  "transform example_store ((example_client (scripted [Inr response_200]) 3)\<lparr>pipeline := [3]\<rparr>)
     (httpPost_payload [(''Content-Type'', ''application/json'')] ''/call'' [(''x'', JStr ''y'')])
     = Inr (JObj [(''request'', JObj [(''method'', JStr ''PUT''), (''headers'', JHeaders [])]),
                  (''endpoint'', JStr ''/call''),
                  (''body'', JObj [(''nonce'', JNum (Finite 7))])])
   \<and> calls (snd (httpPost example_platform example_store
                     ((example_client (scripted [Inr response_200]) 3)\<lparr>pipeline := [3]\<rparr>)
                     ''/call'' [(''x'', JStr ''y'')] world0))
     = [(''https://astrox.app/call'',
         JObj [(''method'', JStr ''POST''),
               (''headers'', JHeaders [(''Content-Type'', ''application/json'')]),
               (''body'', JObj [(''nonce'', JNum (Finite 7))])])]"
proof -
  let ?f = "scripted [Inr response_200]"
  let ?c = "(example_client ?f 3)\<lparr>pipeline := [3]\<rparr>"
  let ?hs = "[(''Content-Type'', ''application/json'')]"
  let ?t = "JObj [(''request'', JObj [(''method'', JStr ''PUT''), (''headers'', JHeaders [])]),
                  (''endpoint'', JStr ''/call''),
                  (''body'', JObj [(''nonce'', JNum (Finite 7))])]"
  have t: "transform example_store ?c (httpPost_payload ?hs ''/call'' [(''x'', JStr ''y'')]) = Inr ?t"
    by (simp add: transform_Cons example_store_def httpPost_payload_def) (simp add: transform_def)
  have h: "Headers_new example_platform (httpPost_headers_init example_platform ?c) = Some ?hs"
    by (simp add: httpPost_headers_init_def)
  have i: "httpPost_init ?c ?hs ?t
             = JObj [(''method'', JStr ''POST''),
               (''headers'', JHeaders [(''Content-Type'', ''application/json'')]),
               (''body'', JObj [(''nonce'', JNum (Finite 7))])]"
    by (simp add: httpPost_init_def spread_def spread_opt_def) (simp add: payload_request_def)
  have g: "\<not> (0 > retryTimes ?c \<and> retryTimes ?c \<noteq> 0)" by simp
  have "httpPost example_platform example_store ?c ''/call'' [(''x'', JStr ''y'')] world0
          = requestAndRetry ?c (invoke_fetch (fetch ?c) ''https://astrox.app/call''
              (httpPost_init ?c ?hs ?t)) 0 world0"
    using httpPost_sends_built_method_and_headers [where p = example_platform and c = ?c and t = ?t
        and st = example_store and endpoint = "''/call''" and body = "[(''x'', JStr ''y'')]"
        and href = "''https://astrox.app/call''" and w = world0 and hs = ?hs] t h
    by simp
  then have "calls (snd (httpPost example_platform example_store ?c ''/call'' [(''x'', JStr ''y'')] world0))
     = [(''https://astrox.app/call'',
         JObj [(''method'', JStr ''POST''),
               (''headers'', JHeaders [(''Content-Type'', ''application/json'')]),
               (''body'', JObj [(''nonce'', JNum (Finite 7))])])]"
    by (simp add: i retry_step [OF g] scripted_outcome) (simp add: world0_def)
  with t show ?thesis by (simp only: simp_thms)
qed

subsection \<open>The Authorization header of httpPost\<close>

lemma httpPost_headers_init_credentials:
  "credentials c = Some cr \<Longrightarrow> cr \<noteq> [] \<Longrightarrow>
   httpPost_headers_init p c
     = [(''Content-Type'', ''application/json''),
        (''Authorization'', ''Basic '' @ Buffer_from_base64 p cr)]"
  by (simp add: httpPost_headers_init_def)

lemma base64_examples:
  "base64_encode ''user:pass'' = ''dXNlcjpwYXNz''"
  "base64_encode ''QUJD:RUZH'' = ''UVVKRDpSVVpI''"
  by code_simp+

text \<open>
  C4, the code at failing inputs. The claim describes the header of Basic
  authentication, \<^verbatim>\<open>Basic\<close> and the base64 encoding of the credentials, and the code
  aims at it, but \<^verbatim>\<open>Buffer.from(text, 'base64')\<close> decodes the text. With the credentials
  \<^verbatim>\<open>user\<close> and \<^verbatim>\<open>pass\<close> the claim gives \<^verbatim>\<open>Basic dXNlcjpwYXNz\<close>; the text the
  code computes is not a legal header value, the \<^verbatim>\<open>Headers\<close> constructor throws and
  \<^verbatim>\<open>httpPost\<close> ends with that error, without a transport call. With the credentials
  \<^verbatim>\<open>QUJD\<close> and \<^verbatim>\<open>RUZH\<close> the claim gives \<^verbatim>\<open>Basic UVVKRDpSVVpI\<close>; the code builds
  \<^verbatim>\<open>Basic ABCEFG\<close> and sends it.
\<close>

theorem post_authorization_at_failing_inputs:
  "new_HttpClient example_platform
     ((example_options (scripted [Inr response_200]))
        \<lparr>opt_credentials := Some \<lparr>name = ''user'', password = Some ''pass''\<rparr>\<rparr>)
     = Inr ((example_client (scripted [Inr response_200]) 3)\<lparr>credentials := Some ''user:pass''\<rparr>)
   \<and> httpPost example_platform store0
        ((example_client (scripted [Inr response_200]) 3)\<lparr>credentials := Some ''user:pass''\<rparr>)
        ''/call'' [] world0
     = (Inl TypeError, world0)
   \<and> ''Basic '' @ base64_encode ''user:pass'' = ''Basic dXNlcjpwYXNz''
   \<and> new_HttpClient example_platform
     ((example_options (scripted [Inr response_200]))
        \<lparr>opt_credentials := Some \<lparr>name = ''QUJD'', password = Some ''RUZH''\<rparr>\<rparr>)
     = Inr ((example_client (scripted [Inr response_200]) 3)\<lparr>credentials := Some ''QUJD:RUZH''\<rparr>)
   \<and> calls (snd (httpPost example_platform store0
        ((example_client (scripted [Inr response_200]) 3)\<lparr>credentials := Some ''QUJD:RUZH''\<rparr>)
        ''/call'' [] world0))
     = [(''https://astrox.app/call'',
         JObj [(''method'', JStr ''POST''),
               (''headers'', JHeaders [(''Content-Type'', ''application/json''),
                                       (''Authorization'', ''Basic ABCEFG'')]),
               (''body'', JObj [])])]
   \<and> ''Basic '' @ base64_encode ''QUJD:RUZH'' = ''Basic UVVKRDpSVVpI''"
proof -
  let ?f = "scripted [Inr response_200]"
  let ?up = "(example_client ?f 3)\<lparr>credentials := Some ''user:pass''\<rparr>"
  let ?qr = "(example_client ?f 3)\<lparr>credentials := Some ''QUJD:RUZH''\<rparr>"
  let ?hs = "[(''Content-Type'', ''application/json''), (''Authorization'', ''Basic ABCEFG'')]"
  let ?t = "httpPost_payload ?hs ''/call'' []"
  have a: "new_HttpClient example_platform
     ((example_options ?f)\<lparr>opt_credentials := Some \<lparr>name = ''user'', password = Some ''pass''\<rparr>\<rparr>) = Inr ?up"
    by (simp add: new_HttpClient_def example_options_def example_platform_def resolve_host_def
      match_scheme_def is_lower_def example_url_def endsWith_def API_SUB_DOMAIN_def API_DOMAIN_def
      example_client_def credentials_string_def)
  have "Headers_new example_platform (httpPost_headers_init example_platform ?up) = None"
    by (simp add: httpPost_headers_init_def example_platform_def example_header_value_def)
  then have b: "httpPost example_platform store0 ?up ''/call'' [] world0 = (Inl TypeError, world0)"
    by (rule httpPost_headers_rejected)
  have c: "''Basic '' @ base64_encode ''user:pass'' = ''Basic dXNlcjpwYXNz''"
    by (simp only: base64_examples) simp
  have d: "new_HttpClient example_platform
     ((example_options ?f)\<lparr>opt_credentials := Some \<lparr>name = ''QUJD'', password = Some ''RUZH''\<rparr>\<rparr>) = Inr ?qr"
    by (simp add: new_HttpClient_def example_options_def example_platform_def resolve_host_def
      match_scheme_def is_lower_def example_url_def endsWith_def API_SUB_DOMAIN_def API_DOMAIN_def
      example_client_def credentials_string_def)
  have h: "Headers_new example_platform (httpPost_headers_init example_platform ?qr) = Some ?hs"
    by (simp add: httpPost_headers_init_def example_platform_def example_header_value_def)
  have t: "transform store0 ?qr ?t = Inr ?t" by (simp add: transform_empty)
  have i: "httpPost_init ?qr ?hs ?t
             = JObj [(''method'', JStr ''POST''), (''headers'', JHeaders ?hs), (''body'', JObj [])]"
    by (simp add: httpPost_init_def spread_def spread_opt_def httpPost_payload_def)
       (simp add: payload_request_def)
  have g: "\<not> (0 > retryTimes ?qr \<and> retryTimes ?qr \<noteq> 0)" by simp
  have "httpPost example_platform store0 ?qr ''/call'' [] world0
          = requestAndRetry ?qr (invoke_fetch (fetch ?qr) ''https://astrox.app/call''
              (httpPost_init ?qr ?hs ?t)) 0 world0"
    using httpPost_run [of example_platform ?qr ?hs "''/call''" "''https://astrox.app/call''" store0 "[]" ?t world0]
      h t by simp
  then have e: "calls (snd (httpPost example_platform store0 ?qr ''/call'' [] world0))
     = [(''https://astrox.app/call'',
         JObj [(''method'', JStr ''POST''), (''headers'', JHeaders ?hs), (''body'', JObj [])])]"
    by (simp add: i retry_step [OF g] scripted_outcome) (simp add: world0_def)
  have f: "''Basic '' @ base64_encode ''QUJD:RUZH'' = ''Basic UVVKRDpSVVpI''"
    by (simp only: base64_examples) simp
  from a b c d e f show ?thesis by (simp only: simp_thms)
qed

subsection \<open>The Authorization header of httpGet\<close>





text \<open>
  The condition on the plain options is needed: they are spread after \<^verbatim>\<open>headers\<close>,
  so a \<^verbatim>\<open>headers\<close> entry in them replaces the header object, unlike the call options
  of \<^verbatim>\<open>httpPost\<close>, which are spread first.
\<close>

lemma fetchOptions_replace_headers:
  "get_prop (httpGet_init example_platform
      ((example_client (scripted []) 3)\<lparr>credentials := Some ''QUJD'',
                                          fetchOptions := Some [(''headers'', JObj [])]\<rparr>)) ''headers''
     = JObj []"
  by (simp add: httpGet_init_def httpGet_headers_def spread_opt_def spread_def own_keys_def
      is_array_index_def is_digit_def)

end
